theory Spec2Isabelle
  imports Main
begin

section \<open>JavaScript values\<close>

text \<open>
  The script is dynamically typed: the catalog document, the completion response and the
  persisted selection are whatever \<^verbatim>\<open>JSON.parse\<close> made of a text. A value is a
  \<open>json\<close>; \<^verbatim>\<open>undefined\<close> is \<open>None\<close> of \<open>json option\<close>. Numbers are integers
  (product ids and status codes are; fractions, NaN and the integers JavaScript no
  longer prints digit by digit are left out), strings are lists of code units below
  256, and an object lists its members in order, each name once.
\<close>

datatype json =
    JNull
  | JBool bool
  | JNum int
  | JStr string
  | JArr "json list"
  | JObj "(string \<times> json) list"

type_synonym jsval = "json option"

text \<open>
  The errors the script can meet: its own \<^verbatim>\<open>new Error(msg)\<close>, and the platform's
  \<^verbatim>\<open>TypeError\<close> and \<^verbatim>\<open>SyntaxError\<close>. The handlers read \<^verbatim>\<open>err.message\<close> only.
\<close>

datatype error = Error string | TypeError string | SyntaxError string

fun err_message :: "error \<Rightarrow> string" where
  "err_message (Error m) = m"
| "err_message (TypeError m) = m"
| "err_message (SyntaxError m) = m"

text \<open>\<^verbatim>\<open>!!v\<close>: every value is truthy but undefined, null, false, 0 and the empty string.\<close>

fun truthy :: "jsval \<Rightarrow> bool" where
  "truthy None = False"
| "truthy (Some JNull) = False"
| "truthy (Some (JBool b)) = b"
| "truthy (Some (JNum n)) = (n \<noteq> 0)"
| "truthy (Some (JStr s)) = (s \<noteq> [])"
| "truthy (Some (JArr xs)) = True"
| "truthy (Some (JObj kvs)) = True"

text \<open>\<^verbatim>\<open>a || b\<close> is \<open>a\<close> when \<open>a\<close> is truthy and \<open>b\<close> otherwise.\<close>

definition js_or :: "jsval \<Rightarrow> jsval \<Rightarrow> jsval" where
  "js_or a b = (if truthy a then a else b)"

text \<open>
  \<^verbatim>\<open>v?.name\<close>: undefined on undefined and null, the property of an object, and undefined
  on everything else. The names the script reads (content, text, answer, message,
  choices, products, id, name, brand, category, description) are no built-in property of
  a string, a number, a boolean or an array.
\<close>

fun opt_prop :: "jsval \<Rightarrow> string \<Rightarrow> jsval" where
  "opt_prop (Some (JObj kvs)) name = map_of kvs name"
| "opt_prop _ name = None"

text \<open>\<^verbatim>\<open>v.name\<close> without the question mark raises a TypeError on null.\<close>

fun get_prop :: "json \<Rightarrow> string \<Rightarrow> error + jsval" where
  "get_prop JNull name = Inl (TypeError (''Cannot read properties of null (reading '' @ name @ '')''))"
| "get_prop v name = Inr (opt_prop (Some v) name)"

text \<open>
  \<^verbatim>\<open>v?.[0]\<close>: the first element of an array, the first code unit of a string, the
  property \<^verbatim>\<open>"0"\<close> of an object.
\<close>

fun opt_index0 :: "jsval \<Rightarrow> jsval" where
  "opt_index0 (Some (JArr xs)) = (case xs of [] \<Rightarrow> None | x # _ \<Rightarrow> Some x)"
| "opt_index0 (Some (JStr s)) = (case s of [] \<Rightarrow> None | c # _ \<Rightarrow> Some (JStr [c]))"
| "opt_index0 (Some (JObj kvs)) = map_of kvs ''0''"
| "opt_index0 _ = None"

text \<open>
  \<^verbatim>\<open>a === b\<close>. An array or an object is equal to itself only, and the two sides the
  script compares never are the same object (one comes from the catalog, the other from
  \<^verbatim>\<open>Number(...)\<close> or from the parsed selection record).
\<close>

fun primitive :: "jsval \<Rightarrow> bool" where
  "primitive (Some (JArr xs)) = False"
| "primitive (Some (JObj kvs)) = False"
| "primitive _ = True"

definition strict_eq :: "jsval \<Rightarrow> jsval \<Rightarrow> bool" where
  "strict_eq a b = (primitive a \<and> a = b)"

subsection \<open>Strings\<close>

definition digit_char :: "nat \<Rightarrow> char" where
  "digit_char d = ''0123456789'' ! d"

fun string_of_nat :: "nat \<Rightarrow> string" where
  "string_of_nat n =
     (if n < 10 then [digit_char n] else string_of_nat (n div 10) @ [digit_char (n mod 10)])"

declare string_of_nat.simps [simp del]

definition string_of_int :: "int \<Rightarrow> string" where
  "string_of_int i = (if i < 0 then CHR ''-'' # string_of_nat (nat (- i)) else string_of_nat (nat i))"

fun intercalate :: "string \<Rightarrow> string list \<Rightarrow> string" where
  "intercalate sep [] = []"
| "intercalate sep [x] = x"
| "intercalate sep (x # y # ys) = x @ sep @ intercalate sep (y # ys)"

text \<open>
  \<^verbatim>\<open>String(v)\<close>: an array is its elements joined by commas, with null as the empty
  string; an object is \<^verbatim>\<open>[object Object]\<close>.
\<close>

fun js_String :: "json \<Rightarrow> string" where
  "js_String JNull = ''null''"
| "js_String (JBool b) = (if b then ''true'' else ''false'')"
| "js_String (JNum n) = string_of_int n"
| "js_String (JStr s) = s"
| "js_String (JArr xs) = intercalate '','' (map (\<lambda>x. if x = JNull then [] else js_String x) xs)"
| "js_String (JObj kvs) = ''[object Object]''"

text \<open>
  \<^verbatim>\<open>s.trim()\<close> removes white space and line terminators from both ends: tab, line
  feed, vertical tab, form feed, carriage return, space and the no-break space.
\<close>

definition is_space :: "char \<Rightarrow> bool" where
  "is_space c = (of_char c \<in> {9, 10, 11, 12, 13, 32, 160 :: nat})"

definition js_trim :: "string \<Rightarrow> string" where
  "js_trim s = rev (dropWhile is_space (rev (dropWhile is_space s)))"

section \<open>The platform\<close>

text \<open>
  A text that goes through \<^verbatim>\<open>JSON.stringify\<close> and \<^verbatim>\<open>JSON.parse\<close>, both
  the platform's: \<open>Doc v\<close> is a text that reads as the value \<open>v\<close>, \<open>Raw s\<close> is the
  string \<open>s\<close> where it is no JSON text. The empty string is \<open>Raw []\<close>.
\<close>

datatype jtext = Doc json | Raw string

definition JSON_stringify :: "json \<Rightarrow> jtext" where
  "JSON_stringify v = Doc v"

fun JSON_parse :: "jtext \<Rightarrow> error + json" where
  "JSON_parse (Doc v) = Inr v"
| "JSON_parse (Raw s) = Inl (SyntaxError ''Unexpected token in JSON'')"

text \<open>
  What \<^verbatim>\<open>fetch\<close> gives back: the promise rejects (no network), or resolves to a
  response with a status, a body as \<^verbatim>\<open>resp.text()\<close> reads it and as
  \<^verbatim>\<open>resp.json()\<close> reads it (an error where the body is no JSON text).
\<close>

record response =
  status :: nat
  body_text :: string
  body_json :: "error + json"

definition ok :: "response \<Rightarrow> bool" where
  "ok resp = (200 \<le> status resp \<and> status resp \<le> 299)"

datatype fetch_result = Rejected error | Resolved response

record request =
  url :: string
  http_method :: string
  headers :: "(string \<times> string) list"
  body :: "jtext option"

text \<open>A \<^verbatim>\<open>Map\<close> keeps its entries in insertion order; \<^verbatim>\<open>set\<close> on a present key keeps its place.\<close>

definition Map_has :: "'k \<Rightarrow> ('k \<times> 'v) list \<Rightarrow> bool" where
  "Map_has k m = (k \<in> set (map fst m))"

definition Map_delete :: "'k \<Rightarrow> ('k \<times> 'v) list \<Rightarrow> ('k \<times> 'v) list" where
  "Map_delete k m = filter (\<lambda>e. fst e \<noteq> k) m"

fun Map_set :: "'k \<Rightarrow> 'v \<Rightarrow> ('k \<times> 'v) list \<Rightarrow> ('k \<times> 'v) list" where
  "Map_set k v [] = [(k, v)]"
| "Map_set k v (e # m) = (if fst e = k then (k, v) # m else e # Map_set k v m)"

section \<open>The state of the page\<close>

record message =
  role :: string
  content :: string

record element =
  className :: string
  innerHTML :: string

text \<open>
  The globals of the script and the parts of the page it reads and writes.
  \<open>localStorage\<close> is the entry under \<^verbatim>\<open>STORAGE_KEY\<close>; \<open>storageWritable\<close> is false
  where \<^verbatim>\<open>setItem\<close> throws (quota, storage disabled); \<open>fetched\<close> lists the calls of
  \<^verbatim>\<open>fetch\<close>. The markup of the product cards and of the selected list is a projection of
  \<open>selectedProducts\<close> and is not kept.
\<close>

record state =
  allProductsCache :: jsval
  selectedProducts :: "(json \<times> json) list"
  messages :: "message list"
  localStorage :: "jtext option"
  storageWritable :: bool
  chatWindow :: "element list"
  userInput :: string
  sendBtn_disabled :: bool
  generateRoutineBtn_disabled :: bool
  fetched :: "request list"

definition PROMPT_ID :: string where
  "PROMPT_ID = ''pmpt_6903f2d96e2081939c6273ab361fb3760f15a6ced37d327a''"

definition WORKER_URL :: string where
  "WORKER_URL = ''https://loreal-chatbot.aocampo2533.workers.dev/''"

section \<open>Catalog\<close>

text \<open>
  \<^verbatim>\<open>loadProducts\<close>: the cache when it is truthy; otherwise a GET of the catalog
  document, whose \<^verbatim>\<open>products\<close> become the cache. The status of the response is not read.
\<close>

definition loadProducts :: "fetch_result \<Rightarrow> state \<Rightarrow> (error + jsval) \<times> state" where
  "loadProducts fr s =
     (if truthy (allProductsCache s) then (Inr (allProductsCache s), s)
      else
        let s1 = s\<lparr>fetched := fetched s @
                   [\<lparr>url = ''products.json'', http_method = ''GET'', headers = [], body = None\<rparr>]\<rparr>
        in case fr of
             Rejected e \<Rightarrow> (Inl e, s1)
           | Resolved resp \<Rightarrow>
               (case body_json resp of
                  Inl e \<Rightarrow> (Inl e, s1)
                | Inr data \<Rightarrow>
                    (case get_prop data ''products'' of
                       Inl e \<Rightarrow> (Inl e, s1)
                     | Inr v \<Rightarrow> (Inr v, s1\<lparr>allProductsCache := v\<rparr>))))"

text \<open>
  \<^verbatim>\<open>(window.allProductsCache || []).find((p) => p.id === id)\<close>: the first element whose
  \<^verbatim>\<open>id\<close> is the one asked for. Reading \<^verbatim>\<open>id\<close> of a null element raises, and so does
  \<^verbatim>\<open>find\<close> on a truthy cache that is no array.
\<close>

fun find_by_id :: "json list \<Rightarrow> json \<Rightarrow> error + jsval" where
  "find_by_id [] k = Inr None"
| "find_by_id (p # ps) k =
     (case get_prop p ''id'' of
        Inl e \<Rightarrow> Inl e
      | Inr v \<Rightarrow> if strict_eq v (Some k) then Inr (Some p) else find_by_id ps k)"

definition find_product :: "jsval \<Rightarrow> json \<Rightarrow> error + jsval" where
  "find_product cache k =
     (case js_or cache (Some (JArr [])) of
        Some (JArr ps) \<Rightarrow> find_by_id ps k
      | _ \<Rightarrow> Inl (TypeError ''(window.allProductsCache || []).find is not a function''))"

section \<open>Selection\<close>

text \<open>
  \<^verbatim>\<open>renderSelectedProducts\<close> rewrites the selected list and disables the routine button
  exactly when nothing is selected.
\<close>

definition renderSelectedProducts :: "state \<Rightarrow> state" where
  "renderSelectedProducts s = s\<lparr>generateRoutineBtn_disabled := (selectedProducts s = [])\<rparr>"

text \<open>
  \<^verbatim>\<open>saveSelectionsToStorage\<close> writes the keys, in the order of the Map; a failing
  \<^verbatim>\<open>setItem\<close> is caught and the entry stays as it was.
\<close>

definition saveSelectionsToStorage :: "state \<Rightarrow> state" where
  "saveSelectionsToStorage s =
     (let ids = map fst (selectedProducts s)
      in if storageWritable s then s\<lparr>localStorage := Some (JSON_stringify (JArr ids))\<rparr> else s)"

definition toggleSelection :: "int \<Rightarrow> state \<Rightarrow> error + state" where
  "toggleSelection productId s =
     (case find_product (allProductsCache s) (JNum productId) of
        Inl e \<Rightarrow> Inl e
      | Inr None \<Rightarrow> Inr s
      | Inr (Some product) \<Rightarrow>
          if \<not> truthy (Some product) then Inr s
          else
            let sel = (if Map_has (JNum productId) (selectedProducts s)
                       then Map_delete (JNum productId) (selectedProducts s)
                       else Map_set (JNum productId) product (selectedProducts s))
            in Inr (saveSelectionsToStorage (renderSelectedProducts (s\<lparr>selectedProducts := sel\<rparr>))))"

text \<open>The remove button of a chip, and the clear button.\<close>

definition removeSelection :: "int \<Rightarrow> state \<Rightarrow> state" where
  "removeSelection id' s =
     saveSelectionsToStorage (renderSelectedProducts
       (s\<lparr>selectedProducts := Map_delete (JNum id') (selectedProducts s)\<rparr>))"

definition clearSelections :: "state \<Rightarrow> state" where
  "clearSelections s =
     saveSelectionsToStorage (renderSelectedProducts (s\<lparr>selectedProducts := []\<rparr>))"

text \<open>
  The \<^verbatim>\<open>forEach\<close> of \<^verbatim>\<open>restoreSelectionsFromStorage\<close>: each persisted id that finds a
  product is set, in order; an exception stops it where it is.
\<close>

fun restore_each :: "jsval \<Rightarrow> json list \<Rightarrow> (json \<times> json) list \<Rightarrow> error option \<times> (json \<times> json) list" where
  "restore_each cache [] sel = (None, sel)"
| "restore_each cache (i # ids) sel =
     (case find_product cache i of
        Inl e \<Rightarrow> (Some e, sel)
      | Inr None \<Rightarrow> restore_each cache ids sel
      | Inr (Some found) \<Rightarrow>
          if truthy (Some found) then restore_each cache ids (Map_set i found sel)
          else restore_each cache ids sel)"

text \<open>
  \<^verbatim>\<open>restoreSelectionsFromStorage\<close>. Everything runs inside one \<^verbatim>\<open>try\<close>, whose
  \<^verbatim>\<open>catch\<close> only warns: an exception leaves the state as it was when it was raised.
\<close>

definition restoreSelectionsFromStorage :: "fetch_result \<Rightarrow> state \<Rightarrow> state" where
  "restoreSelectionsFromStorage fr s =
     (case localStorage s of
        None \<Rightarrow> s
      | Some raw \<Rightarrow>
          if raw = Raw [] then s
          else
            (case JSON_parse raw of
               Inl e \<Rightarrow> s
             | Inr ids \<Rightarrow>
                 (case ids of
                    JArr xs \<Rightarrow>
                      (case loadProducts fr s of
                         (Inl e, s1) \<Rightarrow> s1
                       | (Inr c, s1) \<Rightarrow>
                           (case restore_each (allProductsCache s1) xs (selectedProducts s1) of
                              (Some e, sel) \<Rightarrow> s1\<lparr>selectedProducts := sel\<rparr>
                            | (None, sel) \<Rightarrow> renderSelectedProducts (s1\<lparr>selectedProducts := sel\<rparr>)))
                  | _ \<Rightarrow> s)))"

section \<open>Chat\<close>

definition replace_all :: "char \<Rightarrow> string \<Rightarrow> string \<Rightarrow> string" where
  "replace_all c r str = concat (map (\<lambda>x. if x = c then r else [x]) str)"

definition escapeHtml :: "string \<Rightarrow> string" where
  "escapeHtml str =
     replace_all (CHR 0x27) ''&#039;''
       (replace_all (CHR 0x22) ''&quot;''
         (replace_all (CHR ''>'') ''&gt;''
           (replace_all (CHR ''<'') ''&lt;''
             (replace_all (CHR ''&'') ''&amp;'' str))))"

text \<open>
  \<^verbatim>\<open>appendMessageToChat(role, text)\<close> adds one element to the chat window, of class
  \<^verbatim>\<open>chat-message\<close> and the role, holding the trimmed and escaped text.
\<close>

definition message_html :: "string \<Rightarrow> string" where
  "message_html safeText =
     ''<div class='' @ [CHR 0x22] @ ''message-content'' @ [CHR 0x22] @ ''>''
     @ replace_all (CHR 0x0A) ''<br>'' (escapeHtml safeText) @ ''</div>''"

definition appendMessageToChat :: "string \<Rightarrow> string \<Rightarrow> state \<Rightarrow> state" where
  "appendMessageToChat role' text' s =
     (let safeText = js_trim text';
          wrapper = \<lparr>className = ''chat-message '' @ role', innerHTML = message_html safeText\<rparr>
      in s\<lparr>chatWindow := chatWindow s @ [wrapper]\<rparr>)"

text \<open>The classes of an element are the words of its \<^verbatim>\<open>className\<close>.\<close>

fun split_on :: "char \<Rightarrow> string \<Rightarrow> string list" where
  "split_on c [] = [[]]"
| "split_on c (x # xs) =
     (if x = c then [] # split_on c xs
      else (case split_on c xs of [] \<Rightarrow> [[x]] | w # ws \<Rightarrow> (x # w) # ws))"

definition has_class :: "string \<Rightarrow> element \<Rightarrow> bool" where
  "has_class c e = (c \<noteq> [] \<and> c \<in> set (split_on (CHR '' '') (className e)))"

text \<open>The elements \<^verbatim>\<open>.chat-message.assistant\<close> selects.\<close>

definition is_assistant :: "element \<Rightarrow> bool" where
  "is_assistant e = (has_class ''chat-message'' e \<and> has_class ''assistant'' e)"

fun remove_first :: "('a \<Rightarrow> bool) \<Rightarrow> 'a list \<Rightarrow> 'a list" where
  "remove_first P [] = []"
| "remove_first P (x # xs) = (if P x then xs else x # remove_first P xs)"

text \<open>
  \<^verbatim>\<open>if (assistants.length) assistants[assistants.length - 1].remove()\<close>: the last
  assistant element of the chat window goes, if there is one.
\<close>

definition remove_last_assistant :: "state \<Rightarrow> state" where
  "remove_last_assistant s = s\<lparr>chatWindow := rev (remove_first is_assistant (rev (chatWindow s)))\<rparr>"

section \<open>Completion\<close>

definition message_json :: "message \<Rightarrow> json" where
  "message_json m = JObj [(''role'', JStr (role m)), (''content'', JStr (content m))]"

text \<open>The places \<^verbatim>\<open>sendMessagesToAI\<close> looks for the assistant's text, in its order.\<close>

definition aiText :: "json \<Rightarrow> jsval" where
  "aiText data =
     js_or (js_or (js_or (js_or (js_or (js_or
       (opt_prop (Some data) ''content'')
       (opt_prop (Some data) ''text''))
       (opt_prop (Some data) ''answer''))
       (opt_prop (Some data) ''message''))
       (opt_prop (opt_prop (opt_index0 (opt_prop (Some data) ''choices'')) ''message'') ''content''))
       (opt_prop (opt_index0 (opt_prop (Some data) ''choices'')) ''text''))
       (Some JNull)"

text \<open>
  \<^verbatim>\<open>sendMessagesToAI(messagesArray)\<close>, with what the POST comes back with as its first
  argument. The request holds the messages as they are at the call.
\<close>

definition sendMessagesToAI :: "fetch_result \<Rightarrow> message list \<Rightarrow> state \<Rightarrow> (error + string) \<times> state" where
  "sendMessagesToAI fr messagesArray s =
     (let s1 = s\<lparr>fetched := fetched s @
                 [\<lparr>url = WORKER_URL, http_method = ''POST'',
                   headers = [(''Content-Type'', ''application/json'')],
                   body = Some (JSON_stringify (JObj
                     [(''messages'', JArr (map message_json messagesArray)),
                      (''promptId'', JStr PROMPT_ID)]))\<rparr>]\<rparr>
      in case fr of
           Rejected e \<Rightarrow> (Inl e, s1)
         | Resolved resp \<Rightarrow>
             if \<not> ok resp
             then (Inl (Error (''Worker error: '' @ string_of_nat (status resp) @ '' '' @ body_text resp)), s1)
             else
               (case body_json resp of
                  Inl e \<Rightarrow> (Inl e, s1)
                | Inr data \<Rightarrow>
                    (case aiText data of
                       None \<Rightarrow> (Inl (Error ''No assistant text returned from worker''), s1)
                     | Some t \<Rightarrow>
                         if \<not> truthy (Some t)
                         then (Inl (Error ''No assistant text returned from worker''), s1)
                         else (Inr (js_trim (js_String t)), s1))))"

text \<open>The \<^verbatim>\<open>finally\<close> of both handlers.\<close>

definition enable_controls :: "state \<Rightarrow> state" where
  "enable_controls s = s\<lparr>sendBtn_disabled := False, generateRoutineBtn_disabled := False\<rparr>"

text \<open>
  The submit handler of the chat form, up to the call of \<^verbatim>\<open>sendMessagesToAI\<close>
  (\<open>chat_begin\<close>, for a text that is not empty) and from there on (\<open>chat_reply\<close>).
\<close>

definition chat_begin :: "string \<Rightarrow> state \<Rightarrow> state" where
  "chat_begin text' s =
     (let s1 = s\<lparr>messages := messages s @ [\<lparr>role = ''user'', content = text'\<rparr>]\<rparr>;
          s2 = appendMessageToChat ''user'' text' s1;
          s3 = s2\<lparr>userInput := []\<rparr>;
          s4 = s3\<lparr>sendBtn_disabled := True, generateRoutineBtn_disabled := True\<rparr>
      in appendMessageToChat ''assistant'' ''Thinking...'' s4)"

definition chat_reply :: "fetch_result \<Rightarrow> state \<Rightarrow> state" where
  "chat_reply fr s =
     (case sendMessagesToAI fr (messages s) s of
        (Inr t, s1) \<Rightarrow>
          (let s2 = remove_last_assistant s1;
               s3 = appendMessageToChat ''assistant'' t s2
           in enable_controls (s3\<lparr>messages := messages s3 @ [\<lparr>role = ''assistant'', content = t\<rparr>]\<rparr>))
      | (Inl err, s1) \<Rightarrow>
          enable_controls (appendMessageToChat ''assistant'' (''Error: '' @ err_message err) s1))"

definition chat_submit :: "fetch_result \<Rightarrow> state \<Rightarrow> state" where
  "chat_submit fr s =
     (let text' = js_trim (userInput s)
      in if text' = [] then s else chat_reply fr (chat_begin text' s))"

section \<open>Routine generation\<close>

text \<open>
  \<^verbatim>\<open>JSON.stringify(value, null, 2)\<close>: the text with a line for each element and member,
  indented by two spaces a level. \<open>ind\<close> is the indentation of the enclosing level.
\<close>

definition hex_char :: "nat \<Rightarrow> char" where
  "hex_char d = ''0123456789abcdef'' ! d"

definition quote_char :: "char \<Rightarrow> string" where
  "quote_char c =
     (if c = CHR 0x22 then [CHR 0x5C, CHR 0x22]
      else if c = CHR 0x5C then [CHR 0x5C, CHR 0x5C]
      else if c = CHR 0x08 then [CHR 0x5C, CHR ''b'']
      else if c = CHR 0x0C then [CHR 0x5C, CHR ''f'']
      else if c = CHR 0x0A then [CHR 0x5C, CHR ''n'']
      else if c = CHR 0x0D then [CHR 0x5C, CHR ''r'']
      else if c = CHR 0x09 then [CHR 0x5C, CHR ''t'']
      else if (of_char c :: nat) < 32
        then [CHR 0x5C, CHR ''u'', CHR ''0'', CHR ''0'',
              hex_char (of_char c div 16), hex_char (of_char c mod 16)]
      else [c])"

definition quote :: "string \<Rightarrow> string" where
  "quote str = [CHR 0x22] @ concat (map quote_char str) @ [CHR 0x22]"

fun stringify_indented :: "string \<Rightarrow> json \<Rightarrow> string" where
  "stringify_indented ind JNull = ''null''"
| "stringify_indented ind (JBool b) = (if b then ''true'' else ''false'')"
| "stringify_indented ind (JNum n) = string_of_int n"
| "stringify_indented ind (JStr str) = quote str"
| "stringify_indented ind (JArr xs) =
     (if xs = [] then ''[]''
      else ''['' @ [CHR 0x0A] @ (ind @ ''  '')
           @ intercalate ('','' @ [CHR 0x0A] @ (ind @ ''  ''))
               (map (stringify_indented (ind @ ''  '')) xs)
           @ [CHR 0x0A] @ ind @ '']'')"
| "stringify_indented ind (JObj kvs) =
     (if kvs = [] then ''{}''
      else ''{'' @ [CHR 0x0A] @ (ind @ ''  '')
           @ intercalate ('','' @ [CHR 0x0A] @ (ind @ ''  ''))
               (map (\<lambda>kv. quote (fst kv) @ '': '' @ stringify_indented (ind @ ''  '') (snd kv)) kvs)
           @ [CHR 0x0A] @ ind @ ''}'')"

text \<open>
  The object \<^verbatim>\<open>{id: p.id, name: p.name, brand: p.brand, category: p.category,
  description: p.description}\<close> of a selected product. A member that is undefined is left
  out, as \<^verbatim>\<open>JSON.stringify\<close> leaves it out, and the object is read by nothing else.
\<close>

definition selected_entry :: "json \<Rightarrow> error + json" where
  "selected_entry p =
     (case get_prop p ''id'' of
        Inl e \<Rightarrow> Inl e
      | Inr v \<Rightarrow>
          Inr (JObj (List.map_filter
                 (\<lambda>name. map_option (Pair name) (opt_prop (Some p) name))
                 [''id'', ''name'', ''brand'', ''category'', ''description''])))"

fun selected_entries :: "json list \<Rightarrow> error + json list" where
  "selected_entries [] = Inr []"
| "selected_entries (p # ps) =
     (case selected_entry p of
        Inl e \<Rightarrow> Inl e
      | Inr x \<Rightarrow> (case selected_entries ps of Inl e \<Rightarrow> Inl e | Inr xs \<Rightarrow> Inr (x # xs)))"

definition userContent :: "json list \<Rightarrow> string" where
  "userContent selected =
     ''Here are the selected products in JSON format:'' @ [CHR 0x0A]
     @ stringify_indented [] (JArr selected) @ [CHR 0x0A, CHR 0x0A]
     @ ''Please provide a human-readable routine describing the order of use, recommended frequency (AM/PM/daily/weekly), and any important cautions.''"

text \<open>
  The click handler of the routine button, up to the call of \<^verbatim>\<open>sendMessagesToAI\<close>
  (\<open>routine_begin\<close>, for a selection that is not empty) and from there on
  (\<open>routine_reply\<close>).
\<close>

definition routine_begin :: "json list \<Rightarrow> state \<Rightarrow> state" where
  "routine_begin selected s =
     (let s1 = s\<lparr>messages := messages s @ [\<lparr>role = ''user'', content = userContent selected\<rparr>]\<rparr>;
          s2 = appendMessageToChat ''user'' ''(Selected products) See the list you provided.'' s1;
          s3 = appendMessageToChat ''assistant'' ''Generating routine...'' s2
      in s3\<lparr>generateRoutineBtn_disabled := True, sendBtn_disabled := True\<rparr>)"

definition routine_reply :: "fetch_result \<Rightarrow> state \<Rightarrow> state" where
  "routine_reply fr s =
     (case sendMessagesToAI fr (messages s) s of
        (Inr t, s1) \<Rightarrow>
          (let s2 = remove_last_assistant s1;
               s3 = appendMessageToChat ''assistant'' t s2
           in enable_controls (s3\<lparr>messages := messages s3 @ [\<lparr>role = ''assistant'', content = t\<rparr>]\<rparr>))
      | (Inl err, s1) \<Rightarrow>
          enable_controls
            (appendMessageToChat ''assistant'' (''Error generating routine: '' @ err_message err) s1))"

definition generateRoutine :: "fetch_result \<Rightarrow> state \<Rightarrow> error + state" where
  "generateRoutine fr s =
     (case selected_entries (map snd (selectedProducts s)) of
        Inl e \<Rightarrow> Inl e
      | Inr selected \<Rightarrow>
          if length selected = 0
          then Inr (appendMessageToChat ''assistant''
                      ''Select at least one product to generate a routine.'' s)
          else Inr (routine_reply fr (routine_begin selected s)))"

section \<open>Specification vocabulary\<close>

text \<open>
  The catalog the script works with: the elements of the cache, none when the cache is
  not loaded. It is well formed when it is an array (or not loaded) without a null
  element, which is when \<^verbatim>\<open>find\<close> cannot raise.
\<close>

definition products_of :: "jsval \<Rightarrow> json list" where
  "products_of c = (case js_or c (Some (JArr [])) of Some (JArr ps) \<Rightarrow> ps | _ \<Rightarrow> [])"

definition catalog_ok :: "jsval \<Rightarrow> bool" where
  "catalog_ok c =
     (case js_or c (Some (JArr [])) of Some (JArr ps) \<Rightarrow> JNull \<notin> set ps | _ \<Rightarrow> False)"

text \<open>The Product of an id in a Catalog: the first one whose \<^verbatim>\<open>id\<close> is that id.\<close>

definition product_with_id :: "json list \<Rightarrow> json \<Rightarrow> json option" where
  "product_with_id ps k = List.find (\<lambda>p. strict_eq (opt_prop (Some p) ''id'') (Some k)) ps"

text \<open>
  Populating a SelectionSet from a list of persisted ids: each id the Catalog has a
  Product for is set to that Product, in the order of the list; the others are dropped.
\<close>

definition populate :: "json list \<Rightarrow> json list \<Rightarrow> (json \<times> json) list \<Rightarrow> (json \<times> json) list" where
  "populate ps ids sel =
     fold (\<lambda>i m. case product_with_id ps i of None \<Rightarrow> m | Some p \<Rightarrow> Map_set i p m) ids sel"

text \<open>
  The invariant of the SelectionSet: its keys are distinct, and each holds the Product
  the Catalog has for it.
\<close>

definition selection_inv :: "state \<Rightarrow> bool" where
  "selection_inv s =
     (distinct (map fst (selectedProducts s)) \<and>
      (\<forall>e \<in> set (selectedProducts s).
         product_with_id (products_of (allProductsCache s)) (fst e) = Some (snd e)))"

text \<open>Two toggles of one id in a row; the second runs if the first did not raise.\<close>

definition toggle_twice :: "int \<Rightarrow> state \<Rightarrow> error + state" where
  "toggle_twice i s =
     (case toggleSelection i s of Inl e \<Rightarrow> Inl e | Inr s1 \<Rightarrow> toggleSelection i s1)"

text \<open>
  The set of ids the Persisted Selection Record encodes, where it is a list of ids.
\<close>

definition persisted_ids :: "jtext option \<Rightarrow> json set option" where
  "persisted_ids stored = (case stored of Some (Doc (JArr ids)) \<Rightarrow> Some (set ids) | _ \<Rightarrow> None)"

text \<open>
  The response shapes of the specification, in its order, and the first of a list of
  values that is not empty.
\<close>

definition response_shapes :: "json \<Rightarrow> jsval list" where
  "response_shapes data =
     [opt_prop (Some data) ''content'',
      opt_prop (Some data) ''text'',
      opt_prop (Some data) ''answer'',
      opt_prop (Some data) ''message'',
      opt_prop (opt_prop (opt_index0 (opt_prop (Some data) ''choices'')) ''message'') ''content'',
      opt_prop (opt_index0 (opt_prop (Some data) ''choices'')) ''text'']"

fun first_nonempty :: "jsval list \<Rightarrow> json option" where
  "first_nonempty [] = None"
| "first_nonempty (None # vs) = first_nonempty vs"
| "first_nonempty (Some v # vs) = (if truthy (Some v) then Some v else first_nonempty vs)"

text \<open>The element \<^verbatim>\<open>appendMessageToChat\<close> makes of a role and a text already trimmed.\<close>

definition chat_element :: "string \<Rightarrow> string \<Rightarrow> element" where
  "chat_element role' safeText =
     \<lparr>className = ''chat-message '' @ role', innerHTML = message_html safeText\<rparr>"

section \<open>A small catalog\<close>

text \<open>
  The catalog of the specification's scenarios, and the page as it is once the script
  has run, before any event: nothing cached, nothing selected, the system message alone
  in the conversation (its text, which nothing here reads, is a parameter), and the
  routine button disabled by the first \<^verbatim>\<open>renderSelectedProducts\<close>.
\<close>

definition cleanser :: json where
  "cleanser = JObj [(''id'', JNum 1), (''name'', JStr ''Cleanser''), (''category'', JStr ''skincare'')]"

definition shampoo :: json where
  "shampoo = JObj [(''id'', JNum 2), (''name'', JStr ''Shampoo''), (''category'', JStr ''hair'')]"

definition catalog_document :: json where
  "catalog_document = JObj [(''products'', JArr [cleanser, shampoo])]"

definition catalog_response :: "nat \<Rightarrow> response" where
  "catalog_response code = \<lparr>status = code, body_text = [], body_json = Inr catalog_document\<rparr>"

definition initial_state :: "string \<Rightarrow> jtext option \<Rightarrow> state" where
  "initial_state systemPrompt stored =
     \<lparr>allProductsCache = None, selectedProducts = [],
      messages = [\<lparr>role = ''system'', content = systemPrompt\<rparr>],
      localStorage = stored, storageWritable = True, chatWindow = [], userInput = [],
      sendBtn_disabled = False, generateRoutineBtn_disabled = True, fetched = []\<rparr>"

text \<open>The page with the small catalog loaded.\<close>

definition loaded_state :: "jtext option \<Rightarrow> state" where
  "loaded_state stored =
     (initial_state ''You are a helpful beauty assistant.'' stored)
       \<lparr>allProductsCache := Some (JArr [cleanser, shampoo])\<rparr>"

text \<open>The same page with both products selected, in this order, and persisted.\<close>

definition both_selected :: state where
  "both_selected =
     (loaded_state (Some (Doc (JArr [JNum 1, JNum 2]))))
       \<lparr>selectedProducts := [(JNum 1, cleanser), (JNum 2, shampoo)],
        generateRoutineBtn_disabled := False\<rparr>"

text \<open>
  A page loaded with a record that holds the id 5, which the catalog does not have:
  the state after \<^verbatim>\<open>restoreSelectionsFromStorage\<close> has fetched the catalog.
\<close>

definition stale_page :: state where
  "stale_page =
     restoreSelectionsFromStorage (Resolved (catalog_response 200))
       (initial_state ''You are a helpful beauty assistant.'' (Some (Doc (JArr [JNum 5]))))"

text \<open>The page with the small catalog and a question typed into the chat box.\<close>

definition asking :: state where
  "asking = (loaded_state None)\<lparr>userInput := '' How do I use these? ''\<rparr>"

definition server_error :: response where
  "server_error = \<lparr>status = 500, body_text = ''server error'',
                    body_json = Inl (SyntaxError ''Unexpected token in JSON'')\<rparr>"

definition completion_example :: response where
  "completion_example =
     \<lparr>status = 200, body_text = [],
      body_json = Inr (JObj [(''choices'',
        JArr [JObj [(''message'', JObj [(''content'', JStr ''Use AM then PM.'')])]])])\<rparr>"

section \<open>Basic facts\<close>

lemma string_of_nat_500: "string_of_nat 500 = ''500''"
  by (simp add: string_of_nat.simps digit_char_def)

lemma trim_example: "js_trim '' Use AM then PM.  '' = ''Use AM then PM.''"
  by (simp add: js_trim_def is_space_def)

subsection \<open>The Map\<close>

lemma Map_has_iff: "Map_has k m = (map_of m k \<noteq> None)"
  by (induction m) (auto simp: Map_has_def)

lemma map_of_Map_set: "map_of (Map_set k v m) = (map_of m)(k \<mapsto> v)"
  by (induction m) auto

lemma map_of_Map_delete: "map_of (Map_delete k m) = (map_of m)(k := None)"
  by (induction m) (auto simp: Map_delete_def)

lemma Map_set_fresh: "\<not> Map_has k m \<Longrightarrow> Map_set k v m = m @ [(k, v)]"
  by (induction m) (auto simp: Map_has_def)

lemma map_of_snoc_fresh: "\<not> Map_has k m \<Longrightarrow> map_of (m @ [(k, v)]) = (map_of m)(k \<mapsto> v)"
  using map_of_Map_set [of k v m] by (simp add: Map_set_fresh)

lemma Map_delete_fresh: "\<not> Map_has k m \<Longrightarrow> Map_delete k m = m"
  by (induction m) (auto simp: Map_has_def Map_delete_def)

lemma Map_delete_snoc: "Map_delete k (m @ [(k, v)]) = Map_delete k m"
  by (simp add: Map_delete_def)

lemma Map_has_delete: "\<not> Map_has k (Map_delete k m)"
  by (auto simp: Map_has_def Map_delete_def)

lemma Map_has_set: "Map_has k (Map_set k v m)"
  by (induction m) (auto simp: Map_has_def)

lemma keys_Map_delete: "map fst (Map_delete k m) = filter (\<lambda>x. x \<noteq> k) (map fst m)"
  by (induction m) (auto simp: Map_delete_def)

lemma keys_Map_set: "map fst (Map_set k v m) = (if Map_has k m then map fst m else map fst m @ [k])"
  by (induction m) (auto simp: Map_has_def)

lemma distinct_Map_delete: "distinct (map fst m) \<Longrightarrow> distinct (map fst (Map_delete k m))"
  by (simp add: keys_Map_delete)

lemma distinct_Map_set: "distinct (map fst m) \<Longrightarrow> distinct (map fst (Map_set k v m))"
  by (auto simp: keys_Map_set Map_has_def)

lemma Map_set_same: "distinct (map fst m) \<Longrightarrow> (k, v) \<in> set m \<Longrightarrow> Map_set k v m = m"
  by (induction m) (auto simp: rev_image_eqI)

subsection \<open>Looking a product up\<close>

lemma find_by_id_ok:
  "JNull \<notin> set ps \<Longrightarrow> primitive (Some k) \<Longrightarrow>
   find_by_id ps k = Inr (List.find (\<lambda>p. opt_prop (Some p) ''id'' = Some k) ps)"
proof (induction ps)
  case Nil
  then show ?case by simp
next
  case (Cons p ps)
  then have "p \<noteq> JNull" by auto
  then have "get_prop p ''id'' = Inr (opt_prop (Some p) ''id'')" by (cases p) auto
  with Cons show ?case by (auto simp: strict_eq_def)
qed

lemma find_by_id_object:
  "find_by_id ps k = Inr (Some p) \<Longrightarrow> \<exists>kvs. p = JObj kvs"
proof (induction ps)
  case Nil
  then show ?case by simp
next
  case (Cons q ps)
  show ?case
  proof (cases q)
    case JNull
    with Cons show ?thesis by simp
  next
    case (JObj kvs)
    with Cons show ?thesis by (auto split: if_splits)
  qed (use Cons in \<open>auto simp: strict_eq_def split: if_splits\<close>)
qed

lemma find_product_object: "find_product c k = Inr (Some p) \<Longrightarrow> \<exists>kvs. p = JObj kvs"
  by (auto simp: find_product_def js_or_def dest: find_by_id_object split: if_splits option.splits json.splits)

lemma find_product_truthy: "find_product c k = Inr (Some p) \<Longrightarrow> truthy (Some p)"
  by (auto dest: find_product_object)

lemma find_product_array:
  "JNull \<notin> set ps \<Longrightarrow> primitive (Some k) \<Longrightarrow>
   find_product (Some (JArr ps)) k = Inr (List.find (\<lambda>p. opt_prop (Some p) ''id'' = Some k) ps)"
  by (simp add: find_product_def js_or_def find_by_id_ok)

lemma find_product_unloaded: "\<not> truthy c \<Longrightarrow> find_product c k = Inr None"
  by (simp add: find_product_def js_or_def)

lemma find_product_ok:
  "catalog_ok c \<Longrightarrow> find_product c k = Inr (product_with_id (products_of c) k)"
proof -
  assume ok: "catalog_ok c"
  have *: "JNull \<notin> set ps \<Longrightarrow> find_by_id ps k = Inr (product_with_id ps k)" for ps
  proof (induction ps)
    case Nil
    then show ?case by (simp add: product_with_id_def)
  next
    case (Cons p ps)
    then have "p \<noteq> JNull" by auto
    then have "get_prop p ''id'' = Inr (opt_prop (Some p) ''id'')" by (cases p) auto
    with Cons show ?case by (auto simp: product_with_id_def)
  qed
  from ok show ?thesis
    by (auto simp: catalog_ok_def products_of_def find_product_def * split: option.splits json.splits)
qed

lemma product_with_id_object: "product_with_id ps k = Some p \<Longrightarrow> \<exists>kvs. p = JObj kvs"
proof -
  assume "product_with_id ps k = Some p"
  then have "strict_eq (opt_prop (Some p) ''id'') (Some k)"
    by (auto simp: product_with_id_def find_Some_iff)
  then show ?thesis by (cases p) (auto simp: strict_eq_def)
qed

lemma product_with_id_truthy: "product_with_id ps k = Some p \<Longrightarrow> truthy (Some p)"
  by (auto dest: product_with_id_object)

subsection \<open>Toggling\<close>

lemma toggle_absent:
  "catalog_ok (allProductsCache s) \<Longrightarrow> product_with_id (products_of (allProductsCache s)) (JNum i) = None
   \<Longrightarrow> toggleSelection i s = Inr s"
  by (simp add: toggleSelection_def find_product_ok)

lemma toggle_present:
  "catalog_ok (allProductsCache s) \<Longrightarrow> product_with_id (products_of (allProductsCache s)) (JNum i) = Some p
   \<Longrightarrow> toggleSelection i s =
     Inr (saveSelectionsToStorage (renderSelectedProducts
       (s\<lparr>selectedProducts :=
          (if Map_has (JNum i) (selectedProducts s) then Map_delete (JNum i) (selectedProducts s)
           else Map_set (JNum i) p (selectedProducts s))\<rparr>)))"
  by (simp add: toggleSelection_def find_product_ok product_with_id_truthy Let_def)

lemma save_render_fields:
  "selectedProducts (saveSelectionsToStorage (renderSelectedProducts t)) = selectedProducts t"
  "allProductsCache (saveSelectionsToStorage (renderSelectedProducts t)) = allProductsCache t"
  "storageWritable (saveSelectionsToStorage (renderSelectedProducts t)) = storageWritable t"
  "messages (saveSelectionsToStorage (renderSelectedProducts t)) = messages t"
  "chatWindow (saveSelectionsToStorage (renderSelectedProducts t)) = chatWindow t"
  "fetched (saveSelectionsToStorage (renderSelectedProducts t)) = fetched t"
  "localStorage (saveSelectionsToStorage (renderSelectedProducts t)) =
     (if storageWritable t then Some (JSON_stringify (JArr (map fst (selectedProducts t)))) else localStorage t)"
  by (simp_all add: saveSelectionsToStorage_def renderSelectedProducts_def Let_def)

lemmas demo_defs = loaded_state_def initial_state_def both_selected_def cleanser_def shampoo_def
  catalog_ok_def products_of_def product_with_id_def js_or_def strict_eq_def

subsection \<open>Toggling twice\<close>

lemma toggle_fields:
  assumes "toggleSelection i s = Inr s'"
  shows "allProductsCache s' = allProductsCache s" "storageWritable s' = storageWritable s"
    "messages s' = messages s" "chatWindow s' = chatWindow s" "fetched s' = fetched s"
  using assms
  by (auto simp: toggleSelection_def save_render_fields Let_def split: sum.splits option.splits if_splits)

lemma toggle_twice_absent:
  "catalog_ok (allProductsCache s) \<Longrightarrow> product_with_id (products_of (allProductsCache s)) (JNum i) = None
   \<Longrightarrow> toggle_twice i s = Inr s"
  by (simp add: toggle_twice_def toggle_absent)

lemma toggle_twice_unselected:
  assumes ok: "catalog_ok (allProductsCache s)"
    and p: "product_with_id (products_of (allProductsCache s)) (JNum i) = Some p"
    and n: "\<not> Map_has (JNum i) (selectedProducts s)"
  shows "toggle_twice i s =
     Inr (s\<lparr>generateRoutineBtn_disabled := (selectedProducts s = []),
             localStorage := (if storageWritable s
                then Some (JSON_stringify (JArr (map fst (selectedProducts s)))) else localStorage s)\<rparr>)"
proof -
  let ?s1 = "saveSelectionsToStorage (renderSelectedProducts
       (s\<lparr>selectedProducts := selectedProducts s @ [(JNum i, p)]\<rparr>))"
  have 1: "toggleSelection i s = Inr ?s1"
    using toggle_present [OF ok p] n by (simp add: Map_set_fresh)
  have ok1: "catalog_ok (allProductsCache ?s1)"
    and p1: "product_with_id (products_of (allProductsCache ?s1)) (JNum i) = Some p"
    using ok p by (simp_all add: save_render_fields)
  have h: "Map_has (JNum i) (selectedProducts ?s1)"
    by (simp add: save_render_fields Map_has_def)
  have d: "Map_delete (JNum i) (selectedProducts ?s1) = selectedProducts s"
    using n by (simp add: save_render_fields Map_delete_snoc Map_delete_fresh)
  show ?thesis
    unfolding toggle_twice_def 1 sum.case toggle_present [OF ok1 p1] using h
    by (simp add: d) (simp add: saveSelectionsToStorage_def renderSelectedProducts_def Let_def)
qed

lemma toggle_twice_selected:
  assumes ok: "catalog_ok (allProductsCache s)"
    and p: "product_with_id (products_of (allProductsCache s)) (JNum i) = Some p"
    and n: "Map_has (JNum i) (selectedProducts s)"
  shows "toggle_twice i s =
     Inr (s\<lparr>selectedProducts := Map_delete (JNum i) (selectedProducts s) @ [(JNum i, p)],
             generateRoutineBtn_disabled := False,
             localStorage := (if storageWritable s
                then Some (JSON_stringify (JArr (map fst (Map_delete (JNum i) (selectedProducts s)) @ [JNum i])))
                else localStorage s)\<rparr>)"
proof -
  let ?s1 = "saveSelectionsToStorage (renderSelectedProducts
       (s\<lparr>selectedProducts := Map_delete (JNum i) (selectedProducts s)\<rparr>))"
  have 1: "toggleSelection i s = Inr ?s1"
    using toggle_present [OF ok p] n by simp
  have ok1: "catalog_ok (allProductsCache ?s1)"
    and p1: "product_with_id (products_of (allProductsCache ?s1)) (JNum i) = Some p"
    using ok p by (simp_all add: save_render_fields)
  have h: "\<not> Map_has (JNum i) (selectedProducts ?s1)"
    by (simp add: save_render_fields Map_has_delete)
  show ?thesis
    unfolding toggle_twice_def 1 sum.case toggle_present [OF ok1 p1] using h
    by (simp add: Map_set_fresh) (simp add: saveSelectionsToStorage_def renderSelectedProducts_def Let_def)
qed

lemma set_delete_snoc:
  "distinct (map fst m) \<Longrightarrow> (k, v) \<in> set m \<Longrightarrow> set (Map_delete k m @ [(k, v)]) = set m"
  by (auto simp: Map_delete_def dest: eq_key_imp_eq_value)

lemma map_of_delete_snoc:
  "distinct (map fst m) \<Longrightarrow> (k, v) \<in> set m \<Longrightarrow> map_of (Map_delete k m @ [(k, v)]) = map_of m"
proof -
  assume d: "distinct (map fst m)" and e: "(k, v) \<in> set m"
  have "map_of (Map_delete k m @ [(k, v)]) = (map_of (Map_delete k m))(k \<mapsto> v)"
    by (rule map_of_snoc_fresh) (rule Map_has_delete)
  also have "\<dots> = (map_of m)(k \<mapsto> v)" by (simp add: map_of_Map_delete)
  also have "\<dots> = map_of m" using d e by (auto simp: fun_eq_iff)
  finally show ?thesis .
qed

subsection \<open>The small catalog\<close>

lemma loaded_state_facts:
  "catalog_ok (allProductsCache (loaded_state st))"
  "selection_inv (loaded_state st)"
  "selectedProducts (loaded_state st) = []"
  "product_with_id (products_of (allProductsCache (loaded_state st))) (JNum 1) = Some cleanser"
  "product_with_id (products_of (allProductsCache (loaded_state st))) (JNum 2) = Some shampoo"
  "product_with_id (products_of (allProductsCache (loaded_state st))) (JNum 3) = None"
  "localStorage (loaded_state st) = st"
  "storageWritable (loaded_state st)"
  by (simp_all add: demo_defs selection_inv_def)

lemma both_selected_facts:
  "catalog_ok (allProductsCache both_selected)"
  "selection_inv both_selected"
  "selectedProducts both_selected = [(JNum 1, cleanser), (JNum 2, shampoo)]"
  "product_with_id (products_of (allProductsCache both_selected)) (JNum 1) = Some cleanser"
  "product_with_id (products_of (allProductsCache both_selected)) (JNum 2) = Some shampoo"
  "localStorage both_selected = Some (Doc (JArr [JNum 1, JNum 2]))"
  "storageWritable both_selected"
  by (simp_all add: demo_defs selection_inv_def)

lemma stale_page_eq:
  "stale_page =
     (loaded_state (Some (Doc (JArr [JNum 5]))))
       \<lparr>fetched := [\<lparr>url = ''products.json'', http_method = ''GET'', headers = [], body = None\<rparr>]\<rparr>"
  by (simp add: stale_page_def restoreSelectionsFromStorage_def loadProducts_def
      renderSelectedProducts_def find_product_def catalog_response_def catalog_document_def
      demo_defs Let_def)

subsection \<open>Loading, populating and restoring\<close>

lemma loadProducts_cached:
  "truthy (allProductsCache s) \<Longrightarrow> loadProducts fr s = (Inr (allProductsCache s), s)"
  by (simp add: loadProducts_def)

lemma loadProducts_fields:
  assumes "loadProducts fr s = (r, s1)"
  shows "selectedProducts s1 = selectedProducts s" "localStorage s1 = localStorage s"
    "storageWritable s1 = storageWritable s" "messages s1 = messages s"
    "chatWindow s1 = chatWindow s"
  using assms
  by (auto simp: loadProducts_def Let_def split: if_splits fetch_result.splits sum.splits)

lemma populate_Nil [simp]: "populate ps [] sel = sel"
  by (simp add: populate_def)

lemma populate_Cons:
  "populate ps (i # ids) sel =
     populate ps ids (case product_with_id ps i of None \<Rightarrow> sel | Some p \<Rightarrow> Map_set i p sel)"
  by (simp add: populate_def)

lemma restore_each_ok:
  "catalog_ok c \<Longrightarrow> restore_each c ids sel = (None, populate (products_of c) ids sel)"
proof (induction ids arbitrary: sel)
  case Nil
  then show ?case by simp
next
  case (Cons i ids)
  then show ?case
    by (cases "product_with_id (products_of c) i")
      (simp_all add: find_product_ok populate_Cons product_with_id_truthy)
qed

lemma keys_populate:
  "fst ` set (populate ps ids sel) =
     fst ` set sel \<union> {i \<in> set ids. product_with_id ps i \<noteq> None}"
proof (induction ids arbitrary: sel)
  case Nil
  then show ?case by simp
next
  case (Cons i ids)
  show ?case
  proof (cases "product_with_id ps i")
    case None
    then show ?thesis by (auto simp: populate_Cons Cons.IH)
  next
    case (Some p)
    have "fst ` set (Map_set i p sel) = insert i (fst ` set sel)"
      using keys_Map_set [of i p sel, THEN arg_cong, of set] by (auto simp: Map_has_def)
    with Some show ?thesis by (auto simp: populate_Cons Cons.IH)
  qed
qed

lemma map_of_populate:
  "map_of (populate ps ids sel) k =
     (if k \<in> set ids \<and> product_with_id ps k \<noteq> None then product_with_id ps k else map_of sel k)"
proof (induction ids arbitrary: sel)
  case Nil
  then show ?case by simp
next
  case (Cons i ids)
  show ?case
  proof (cases "product_with_id ps i")
    case None
    then show ?thesis by (auto simp: populate_Cons Cons.IH)
  next
    case (Some p)
    then show ?thesis by (auto simp: populate_Cons Cons.IH map_of_Map_set)
  qed
qed

lemma distinct_populate:
  "distinct (map fst sel) \<Longrightarrow> distinct (map fst (populate ps ids sel))"
proof (induction ids arbitrary: sel)
  case Nil
  then show ?case by simp
next
  case (Cons i ids)
  then show ?case
    by (cases "product_with_id ps i") (simp_all add: populate_Cons distinct_Map_set)
qed

lemma populate_same:
  assumes "distinct (map fst sel)"
    and "\<forall>e \<in> set sel. product_with_id ps (fst e) = Some (snd e)"
    and "set ids \<subseteq> fst ` set sel"
  shows "populate ps ids sel = sel"
  using assms(3)
proof (induction ids)
  case Nil
  then show ?case by simp
next
  case (Cons i ids)
  then obtain e where e: "e \<in> set sel" "fst e = i" by auto
  with assms(2) have p: "product_with_id ps i = Some (snd e)" by auto
  from e have "(i, snd e) \<in> set sel" by auto
  with assms(1) have "Map_set i (snd e) sel = sel" by (rule Map_set_same)
  with Cons p show ?case by (simp add: populate_Cons)
qed

lemma populate_fresh:
  assumes "\<forall>e \<in> set xs. product_with_id ps (fst e) = Some (snd e)"
    and "distinct (map fst (acc @ xs))"
  shows "populate ps (map fst xs) acc = acc @ xs"
  using assms
proof (induction xs arbitrary: acc)
  case Nil
  then show ?case by simp
next
  case (Cons x xs)
  from Cons.prems have p: "product_with_id ps (fst x) = Some (snd x)" by simp
  from Cons.prems have n: "\<not> Map_has (fst x) acc" by (auto simp: Map_has_def)
  have "populate ps (map fst (x # xs)) acc = populate ps (map fst xs) (acc @ [x])"
    using p n by (simp add: populate_Cons Map_set_fresh)
  also have "\<dots> = (acc @ [x]) @ xs"
    using Cons.prems by (intro Cons.IH) auto
  finally show ?case by simp
qed

lemma restore_absent: "localStorage s = None \<Longrightarrow> restoreSelectionsFromStorage fr s = s"
  by (simp add: restoreSelectionsFromStorage_def)

lemma restore_unparsable: "localStorage s = Some (Raw str) \<Longrightarrow> restoreSelectionsFromStorage fr s = s"
  by (simp add: restoreSelectionsFromStorage_def)

lemma restore_not_array:
  "localStorage s = Some (Doc v) \<Longrightarrow> \<forall>ids. v \<noteq> JArr ids \<Longrightarrow> restoreSelectionsFromStorage fr s = s"
  by (cases v) (simp_all add: restoreSelectionsFromStorage_def)

lemma restore_array:
  "localStorage s = Some (Doc (JArr ids)) \<Longrightarrow>
   restoreSelectionsFromStorage fr s =
     (case loadProducts fr s of
        (Inl e, s1) \<Rightarrow> s1
      | (Inr c, s1) \<Rightarrow>
          (case restore_each (allProductsCache s1) ids (selectedProducts s1) of
             (Some e, sel) \<Rightarrow> s1\<lparr>selectedProducts := sel\<rparr>
           | (None, sel) \<Rightarrow> renderSelectedProducts (s1\<lparr>selectedProducts := sel\<rparr>)))"
  by (simp add: restoreSelectionsFromStorage_def)

lemma restore_array_loaded:
  assumes "localStorage s = Some (Doc (JArr ids))" and "loadProducts fr s = (Inr c, s1)"
    and "catalog_ok (allProductsCache s1)"
  shows "restoreSelectionsFromStorage fr s =
     renderSelectedProducts
       (s1\<lparr>selectedProducts := populate (products_of (allProductsCache s1)) ids (selectedProducts s)\<rparr>)"
  using assms loadProducts_fields(1) [OF assms(2)]
  by (simp add: restore_array restore_each_ok)

lemma restore_array_failed:
  assumes "localStorage s = Some (Doc (JArr ids))" and "loadProducts fr s = (Inl e, s1)"
  shows "selectedProducts (restoreSelectionsFromStorage fr s) = selectedProducts s"
  using assms loadProducts_fields(1) [OF assms(2)]
  by (simp add: restore_array)

lemma products_of_unloaded: "\<not> truthy c \<Longrightarrow> products_of c = []"
  by (simp add: products_of_def js_or_def)

lemma save_fields:
  "selectedProducts (saveSelectionsToStorage s) = selectedProducts s"
  "allProductsCache (saveSelectionsToStorage s) = allProductsCache s"
  "storageWritable s \<Longrightarrow>
     localStorage (saveSelectionsToStorage s) = Some (Doc (JArr (map fst (selectedProducts s))))"
  by (simp_all add: saveSelectionsToStorage_def JSON_stringify_def Let_def)

lemma loadProducts_initial:
  "loadProducts (Resolved (catalog_response code)) (initial_state sys st) =
     (Inr (Some (JArr [cleanser, shampoo])),
      (initial_state sys st)
        \<lparr>fetched := [\<lparr>url = ''products.json'', http_method = ''GET'', headers = [], body = None\<rparr>],
         allProductsCache := Some (JArr [cleanser, shampoo])\<rparr>)"
  by (simp add: loadProducts_def initial_state_def catalog_response_def catalog_document_def Let_def)

subsection \<open>The reply of the completion endpoint\<close>

lemma js_or_assoc: "js_or (js_or a b) c = js_or a (js_or b c)"
  by (simp add: js_or_def)

lemma foldr_js_or:
  "foldr js_or vs r = (case first_nonempty vs of Some v \<Rightarrow> Some v | None \<Rightarrow> r)"
proof (induction vs)
  case Nil
  then show ?case by simp
next
  case (Cons a vs)
  then show ?case by (cases a) (simp_all add: js_or_def)
qed

lemma aiText_shapes: "aiText data = foldr js_or (response_shapes data) (Some JNull)"
  by (simp add: aiText_def response_shapes_def js_or_assoc)

lemma first_nonempty_truthy: "first_nonempty vs = Some v \<Longrightarrow> truthy (Some v)"
  by (induction vs rule: first_nonempty.induct) (auto split: if_splits)

lemma first_nonempty_find:
  "first_nonempty vs = (case List.find truthy vs of Some (Some v) \<Rightarrow> Some v | _ \<Rightarrow> None)"
  by (induction vs rule: first_nonempty.induct) auto

lemma aiText_first:
  "aiText data = Some (case first_nonempty (response_shapes data) of Some v \<Rightarrow> v | None \<Rightarrow> JNull)"
  by (simp add: aiText_shapes foldr_js_or split: option.splits)

lemma sendMessagesToAI_ok:
  assumes "ok resp" and "body_json resp = Inr data"
  shows "fst (sendMessagesToAI (Resolved resp) msgs s) =
     (case first_nonempty (response_shapes data) of
        Some v \<Rightarrow> Inr (js_trim (js_String v))
      | None \<Rightarrow> Inl (Error ''No assistant text returned from worker''))"
  using assms
  by (auto simp: sendMessagesToAI_def Let_def aiText_first dest: first_nonempty_truthy split: option.splits)

subsection \<open>The message of an endpoint error\<close>

lemma digit_char_inj: "a < 10 \<Longrightarrow> b < 10 \<Longrightarrow> digit_char a = digit_char b \<Longrightarrow> a = b"
proof -
  assume a: "a < 10" and b: "b < 10" and e: "digit_char a = digit_char b"
  have d: "distinct ''0123456789''" by simp
  from a b e show ?thesis
    unfolding digit_char_def by (simp add: nth_eq_iff_index_eq [OF d])
qed

lemma digit_char_no_space: "d < 10 \<Longrightarrow> digit_char d \<noteq> CHR '' ''"
proof -
  assume "d < 10"
  then have "digit_char d \<in> set ''0123456789''"
    unfolding digit_char_def by (intro nth_mem) simp
  then show ?thesis by auto
qed

lemma string_of_nat_nonempty: "string_of_nat n \<noteq> []"
  by (subst string_of_nat.simps) simp

lemma string_of_nat_no_space: "CHR '' '' \<notin> set (string_of_nat n)"
proof (induction n rule: string_of_nat.induct)
  case (1 n)
  show ?case
  proof (cases "n < 10")
    case True
    then show ?thesis
      by (subst string_of_nat.simps) (use digit_char_no_space [of n] in auto)
  next
    case False
    with 1 digit_char_no_space [of "n mod 10"] show ?thesis
      by (subst string_of_nat.simps) auto
  qed
qed

lemma string_of_nat_inj: "string_of_nat a = string_of_nat b \<Longrightarrow> a = b"
proof (induction a arbitrary: b rule: string_of_nat.induct)
  case (1 a)
  show ?case
  proof (cases "a < 10")
    case True
    show ?thesis
    proof (cases "b < 10")
      case b: True
      from "1.prems" True b have "digit_char a = digit_char b"
        by (simp add: string_of_nat.simps [of a] string_of_nat.simps [of b])
      with True b show ?thesis by (rule digit_char_inj)
    next
      case b: False
      from "1.prems" True b string_of_nat_nonempty [of "b div 10"] show ?thesis
        by (simp add: string_of_nat.simps [of a] string_of_nat.simps [of b])
    qed
  next
    case False
    show ?thesis
    proof (cases "b < 10")
      case b: True
      from "1.prems" False b string_of_nat_nonempty [of "a div 10"] show ?thesis
        by (simp add: string_of_nat.simps [of a] string_of_nat.simps [of b])
    next
      case b: False
      from "1.prems" False b
      have e: "string_of_nat (a div 10) = string_of_nat (b div 10)"
        "digit_char (a mod 10) = digit_char (b mod 10)"
        by (simp_all add: string_of_nat.simps [of a] string_of_nat.simps [of b])
      from "1.IH" [OF False e(1)] have "a div 10 = b div 10" .
      moreover from e(2) have "a mod 10 = b mod 10" by (intro digit_char_inj) simp_all
      ultimately show ?thesis by (metis div_mult_mod_eq)
    qed
  qed
qed

lemma split_at_space:
  "CHR '' '' \<notin> set u \<Longrightarrow> CHR '' '' \<notin> set v \<Longrightarrow> u @ CHR '' '' # x = v @ CHR '' '' # y
   \<Longrightarrow> u = v \<and> x = y"
proof (induction u arbitrary: v)
  case Nil
  then show ?case by (cases v) auto
next
  case (Cons c u)
  then show ?case by (cases v) auto
qed

lemma worker_error_inj:
  assumes "''Worker error: '' @ string_of_nat a @ '' '' @ x = ''Worker error: '' @ string_of_nat b @ '' '' @ y"
  shows "a = b \<and> x = y"
proof -
  from assms have "string_of_nat a @ CHR '' '' # x = string_of_nat b @ CHR '' '' # y" by simp
  then have "string_of_nat a = string_of_nat b \<and> x = y"
    by (intro split_at_space string_of_nat_no_space)
  then show ?thesis by (auto dest: string_of_nat_inj)
qed

subsection \<open>The handlers and the conversation\<close>

lemma sendMessagesToAI_state:
  "snd (sendMessagesToAI fr msgs s) =
     s\<lparr>fetched := fetched s @
         [\<lparr>url = WORKER_URL, http_method = ''POST'',
           headers = [(''Content-Type'', ''application/json'')],
           body = Some (JSON_stringify (JObj
             [(''messages'', JArr (map message_json msgs)), (''promptId'', JStr PROMPT_ID)]))\<rparr>]\<rparr>"
  by (simp add: sendMessagesToAI_def Let_def split: fetch_result.splits sum.splits option.splits)

lemma sendMessagesToAI_result_indep:
  "fst (sendMessagesToAI fr msgs s) = fst (sendMessagesToAI fr msgs s')"
  by (simp add: sendMessagesToAI_def Let_def split: fetch_result.splits sum.splits option.splits)

lemma sendMessagesToAI_not_ok:
  "\<not> ok resp \<Longrightarrow> fst (sendMessagesToAI (Resolved resp) msgs s) =
     Inl (Error (''Worker error: '' @ string_of_nat (status resp) @ '' '' @ body_text resp))"
  by (simp add: sendMessagesToAI_def Let_def)

lemma appendMessageToChat_fields:
  "messages (appendMessageToChat r t s) = messages s"
  "fetched (appendMessageToChat r t s) = fetched s"
  "selectedProducts (appendMessageToChat r t s) = selectedProducts s"
  "localStorage (appendMessageToChat r t s) = localStorage s"
  "allProductsCache (appendMessageToChat r t s) = allProductsCache s"
  "sendBtn_disabled (appendMessageToChat r t s) = sendBtn_disabled s"
  "generateRoutineBtn_disabled (appendMessageToChat r t s) = generateRoutineBtn_disabled s"
  "userInput (appendMessageToChat r t s) = userInput s"
  "chatWindow (appendMessageToChat r t s) = chatWindow s @ [chat_element r (js_trim t)]"
  by (simp_all add: appendMessageToChat_def chat_element_def Let_def)

lemma chat_reply_messages:
  "messages (chat_reply fr s) =
     messages s @ (case fst (sendMessagesToAI fr (messages s) s) of
                     Inr t \<Rightarrow> [\<lparr>role = ''assistant'', content = t\<rparr>] | Inl e \<Rightarrow> [])"
proof (cases "sendMessagesToAI fr (messages s) s")
  case (Pair r s1)
  then have "s1 = snd (sendMessagesToAI fr (messages s) s)" by simp
  then have m: "messages s1 = messages s" by (simp add: sendMessagesToAI_state)
  from Pair m show ?thesis
    by (cases r)
      (simp_all add: chat_reply_def enable_controls_def remove_last_assistant_def
        appendMessageToChat_fields Let_def)
qed

lemma routine_reply_messages:
  "messages (routine_reply fr s) =
     messages s @ (case fst (sendMessagesToAI fr (messages s) s) of
                     Inr t \<Rightarrow> [\<lparr>role = ''assistant'', content = t\<rparr>] | Inl e \<Rightarrow> [])"
proof (cases "sendMessagesToAI fr (messages s) s")
  case (Pair r s1)
  then have "s1 = snd (sendMessagesToAI fr (messages s) s)" by simp
  then have m: "messages s1 = messages s" by (simp add: sendMessagesToAI_state)
  from Pair m show ?thesis
    by (cases r)
      (simp_all add: routine_reply_def enable_controls_def remove_last_assistant_def
        appendMessageToChat_fields Let_def)
qed

lemma chat_begin_messages:
  "messages (chat_begin t s) = messages s @ [\<lparr>role = ''user'', content = t\<rparr>]"
  by (simp add: chat_begin_def appendMessageToChat_fields Let_def)

lemma chat_submit_messages:
  "js_trim (userInput s) \<noteq> [] \<Longrightarrow>
   messages (chat_submit fr s) =
     messages s @ \<lparr>role = ''user'', content = js_trim (userInput s)\<rparr> #
       (case fst (sendMessagesToAI fr (messages s @ [\<lparr>role = ''user'', content = js_trim (userInput s)\<rparr>]) s) of
          Inr t \<Rightarrow> [\<lparr>role = ''assistant'', content = t\<rparr>] | Inl e \<Rightarrow> [])"
  using sendMessagesToAI_result_indep [of fr _ "chat_begin (js_trim (userInput s)) s" s]
  by (simp add: chat_submit_def Let_def chat_reply_messages chat_begin_messages)

lemma trim_question: "js_trim '' How do I use these? '' = ''How do I use these?''"
  by (simp add: js_trim_def is_space_def)

subsection \<open>The chat window\<close>

lemma is_assistant_element: "is_assistant (chat_element ''assistant'' t)"
  by (simp add: is_assistant_def has_class_def chat_element_def)

lemma not_assistant_user: "\<not> is_assistant (chat_element ''user'' t)"
  by (simp add: is_assistant_def has_class_def chat_element_def)

lemma trim_guidance:
  "js_trim ''Select at least one product to generate a routine.'' =
     ''Select at least one product to generate a routine.''"
  by (simp add: js_trim_def is_space_def)

lemma enable_controls_fields:
  "chatWindow (enable_controls s) = chatWindow s"
  "messages (enable_controls s) = messages s"
  "sendBtn_disabled (enable_controls s) = False"
  "generateRoutineBtn_disabled (enable_controls s) = False"
  by (simp_all add: enable_controls_def)

lemma chat_reply_failure:
  assumes "fst (sendMessagesToAI fr (messages s) s) = Inl err"
  shows "chatWindow (chat_reply fr s) =
           chatWindow s @ [chat_element ''assistant'' (js_trim (''Error: '' @ err_message err))]"
    and "sendBtn_disabled (chat_reply fr s) = False"
    and "generateRoutineBtn_disabled (chat_reply fr s) = False"
proof -
  obtain r s1 where p: "sendMessagesToAI fr (messages s) s = (r, s1)"
    by (cases "sendMessagesToAI fr (messages s) s")
  with assms have r: "r = Inl err" by simp
  from p have "s1 = snd (sendMessagesToAI fr (messages s) s)" by simp
  then have c: "chatWindow s1 = chatWindow s" by (simp add: sendMessagesToAI_state)
  show "chatWindow (chat_reply fr s) =
           chatWindow s @ [chat_element ''assistant'' (js_trim (''Error: '' @ err_message err))]"
    by (simp add: chat_reply_def p r enable_controls_fields appendMessageToChat_fields c)
  show "sendBtn_disabled (chat_reply fr s) = False"
    by (simp add: chat_reply_def p r enable_controls_fields)
  show "generateRoutineBtn_disabled (chat_reply fr s) = False"
    by (simp add: chat_reply_def p r enable_controls_fields)
qed

lemma routine_reply_failure:
  assumes "fst (sendMessagesToAI fr (messages s) s) = Inl err"
  shows "chatWindow (routine_reply fr s) =
           chatWindow s @
             [chat_element ''assistant'' (js_trim (''Error generating routine: '' @ err_message err))]"
    and "sendBtn_disabled (routine_reply fr s) = False"
    and "generateRoutineBtn_disabled (routine_reply fr s) = False"
proof -
  obtain r s1 where p: "sendMessagesToAI fr (messages s) s = (r, s1)"
    by (cases "sendMessagesToAI fr (messages s) s")
  with assms have r: "r = Inl err" by simp
  from p have "s1 = snd (sendMessagesToAI fr (messages s) s)" by simp
  then have c: "chatWindow s1 = chatWindow s" by (simp add: sendMessagesToAI_state)
  show "chatWindow (routine_reply fr s) =
           chatWindow s @
             [chat_element ''assistant'' (js_trim (''Error generating routine: '' @ err_message err))]"
    by (simp add: routine_reply_def p r enable_controls_fields appendMessageToChat_fields c)
  show "sendBtn_disabled (routine_reply fr s) = False"
    by (simp add: routine_reply_def p r enable_controls_fields)
  show "generateRoutineBtn_disabled (routine_reply fr s) = False"
    by (simp add: routine_reply_def p r enable_controls_fields)
qed

lemma chat_begin_window:
  "chatWindow (chat_begin t s) =
     chatWindow s @ [chat_element ''user'' (js_trim t), chat_element ''assistant'' ''Thinking...'']"
  by (simp add: chat_begin_def appendMessageToChat_fields Let_def js_trim_def is_space_def)

lemma routine_begin_window:
  "chatWindow (routine_begin selected s) =
     chatWindow s @ [chat_element ''user'' ''(Selected products) See the list you provided.'',
                     chat_element ''assistant'' ''Generating routine...'']"
  by (simp add: routine_begin_def appendMessageToChat_fields Let_def js_trim_def is_space_def)

lemma server_error_result:
  "fst (sendMessagesToAI (Resolved server_error) msgs s) = Inl (Error ''Worker error: 500 server error'')"
  by (simp add: sendMessagesToAI_def Let_def ok_def server_error_def string_of_nat_500)

lemma trim_error_notices:
  "js_trim ''Error: Worker error: 500 server error'' = ''Error: Worker error: 500 server error''"
  "js_trim ''Error generating routine: Worker error: 500 server error'' =
     ''Error generating routine: Worker error: 500 server error''"
  "js_trim ''How do I use these?'' = ''How do I use these?''"
  by (simp_all add: js_trim_def is_space_def)

lemma selected_entries_both:
  "selected_entries (map snd (selectedProducts both_selected)) = Inr [cleanser, shampoo]"
  by (simp add: both_selected_def selected_entry_def cleanser_def shampoo_def List.map_filter_def)

lemma success_removes_placeholder:
  "chatWindow (chat_submit (Resolved completion_example) asking) =
     [chat_element ''user'' ''How do I use these?'', chat_element ''assistant'' ''Use AM then PM.'']"
proof -
  have t: "js_trim (userInput asking) = ''How do I use these?''"
    by (simp add: asking_def trim_question)
  have r: "sendMessagesToAI (Resolved completion_example) msgs s =
      (Inr ''Use AM then PM.'', snd (sendMessagesToAI (Resolved completion_example) msgs s))" for msgs s
    by (simp add: sendMessagesToAI_def Let_def ok_def completion_example_def aiText_def js_or_def
        js_trim_def is_space_def)
  show ?thesis
    apply (simp add: chat_submit_def t Let_def chat_reply_def)
    apply (subst r)
    apply (simp add: sendMessagesToAI_state remove_last_assistant_def enable_controls_def
        appendMessageToChat_fields chat_begin_window asking_def loaded_state_def initial_state_def
        is_assistant_element not_assistant_user trim_error_notices js_trim_def is_space_def)
    done
qed

subsection \<open>The catalog loader\<close>

lemma loadProducts_rejected:
  "\<not> truthy (allProductsCache s) \<Longrightarrow> fst (loadProducts (Rejected e) s) = Inl e"
  by (simp add: loadProducts_def Let_def)

lemma loadProducts_unparsable:
  "\<not> truthy (allProductsCache s) \<Longrightarrow> body_json resp = Inl e \<Longrightarrow>
   fst (loadProducts (Resolved resp) s) = Inl e"
  by (simp add: loadProducts_def Let_def)

lemma loadProducts_any_status:
  "\<not> truthy (allProductsCache s) \<Longrightarrow> body_json resp = Inr data \<Longrightarrow>
   get_prop data ''products'' = Inr v \<Longrightarrow>
   fst (loadProducts (Resolved resp) s) = Inr v \<and>
   allProductsCache (snd (loadProducts (Resolved resp) s)) = v"
  by (simp add: loadProducts_def Let_def)

lemma loadProducts_again:
  "loadProducts fr s = (Inr c, s1) \<Longrightarrow> truthy c \<Longrightarrow> loadProducts fr' s1 = (Inr c, s1)"
  by (auto simp: loadProducts_def Let_def split: if_splits fetch_result.splits sum.splits)

subsection \<open>The invariant of the SelectionSet is kept\<close>

lemma selection_inv_initial: "selection_inv (initial_state sys st)"
  by (simp add: selection_inv_def initial_state_def)

lemma selection_inv_save_render:
  "selection_inv (saveSelectionsToStorage (renderSelectedProducts t)) = selection_inv t"
  by (simp add: selection_inv_def save_render_fields)

lemma selection_inv_delete:
  assumes "selection_inv s"
  shows "selection_inv (s\<lparr>selectedProducts := Map_delete k (selectedProducts s)\<rparr>)"
proof -
  have "set (Map_delete k (selectedProducts s)) \<subseteq> set (selectedProducts s)"
    by (auto simp: Map_delete_def)
  with assms show ?thesis
    by (auto simp: selection_inv_def distinct_Map_delete)
qed

lemma selection_inv_set:
  assumes "selection_inv s" and "product_with_id (products_of (allProductsCache s)) k = Some p"
  shows "selection_inv (s\<lparr>selectedProducts := Map_set k p (selectedProducts s)\<rparr>)"
proof -
  have "e \<in> set (Map_set k p m) \<Longrightarrow> e = (k, p) \<or> e \<in> set m" for e and m :: "(json \<times> json) list"
    by (induction m) (auto split: if_splits)
  with assms show ?thesis
    by (fastforce simp: selection_inv_def distinct_Map_set)
qed

lemma toggleSelection_keeps_inv:
  assumes ok: "catalog_ok (allProductsCache s)" and inv: "selection_inv s"
    and t: "toggleSelection i s = Inr s'"
  shows "selection_inv s'"
proof (cases "product_with_id (products_of (allProductsCache s)) (JNum i)")
  case None
  with toggle_absent [OF ok None] t inv show ?thesis by simp
next
  case (Some p)
  from toggle_present [OF ok Some] t
  show ?thesis
    using selection_inv_delete [OF inv, of "JNum i"] selection_inv_set [OF inv Some]
    by (auto simp: selection_inv_save_render split: if_splits)
qed

lemma removeSelection_keeps_inv: "selection_inv s \<Longrightarrow> selection_inv (removeSelection i s)"
  by (simp add: removeSelection_def selection_inv_save_render selection_inv_delete)

lemma clearSelections_keeps_inv: "selection_inv (clearSelections s)"
  by (simp add: clearSelections_def selection_inv_save_render) (simp add: selection_inv_def)

lemma selection_inv_populate:
  assumes "distinct (map fst sel)"
    and "\<forall>e \<in> set sel. product_with_id ps (fst e) = Some (snd e)"
  shows "\<forall>e \<in> set (populate ps ids sel). product_with_id ps (fst e) = Some (snd e)"
  using assms
proof (induction ids arbitrary: sel)
  case Nil
  then show ?case by simp
next
  case (Cons i ids)
  show ?case
  proof (cases "product_with_id ps i")
    case None
    with Cons show ?thesis by (simp add: populate_Cons)
  next
    case (Some p)
    have m: "e \<in> set (Map_set i p sel) \<Longrightarrow> e = (i, p) \<or> e \<in> set sel" for e
      by (induction sel) (auto split: if_splits)
    have "\<forall>e \<in> set (populate ps ids (Map_set i p sel)). product_with_id ps (fst e) = Some (snd e)"
    proof (rule Cons.IH)
      show "distinct (map fst (Map_set i p sel))" using Cons.prems(1) by (rule distinct_Map_set)
      show "\<forall>e \<in> set (Map_set i p sel). product_with_id ps (fst e) = Some (snd e)"
        using Cons.prems(2) Some m by fastforce
    qed
    with Some show ?thesis by (simp add: populate_Cons)
  qed
qed

lemma restore_keeps_inv:
  assumes inv: "selection_inv s"
    and ok: "catalog_ok (allProductsCache (snd (loadProducts fr s)))"
  shows "selection_inv (restoreSelectionsFromStorage fr s)"
proof (cases "\<exists>ids. localStorage s = Some (Doc (JArr ids))")
  case False
  have "restoreSelectionsFromStorage fr s = s"
  proof (cases "localStorage s")
    case None
    then show ?thesis by (rule restore_absent)
  next
    case (Some raw)
    with False show ?thesis
      by (cases raw) (auto intro: restore_unparsable restore_not_array)
  qed
  with inv show ?thesis by simp
next
  case True
  then obtain ids where st: "localStorage s = Some (Doc (JArr ids))" ..
  obtain r s1 where l: "loadProducts fr s = (r, s1)" by (cases "loadProducts fr s")
  note f = loadProducts_fields [OF l]
  show ?thesis
  proof (cases r)
    case (Inl e)
    with l have c: "allProductsCache s1 = allProductsCache s"
      by (auto simp: loadProducts_def Let_def split: if_splits fetch_result.splits sum.splits)
    from l Inl st have "restoreSelectionsFromStorage fr s = s1" by (simp add: restore_array)
    with inv c f(1) show ?thesis by (simp add: selection_inv_def)
  next
    case (Inr c)
    from ok l have ok1: "catalog_ok (allProductsCache s1)" by simp
    let ?ps = "products_of (allProductsCache s1)"
    have old: "\<forall>e \<in> set (selectedProducts s). product_with_id ?ps (fst e) = Some (snd e)"
    proof (cases "truthy (allProductsCache s)")
      case True
      with l have "s1 = s" by (simp add: loadProducts_cached)
      with inv show ?thesis by (simp add: selection_inv_def)
    next
      case False
      then have "products_of (allProductsCache s) = []" by (rule products_of_unloaded)
      with inv have "selectedProducts s = []"
        by (cases "selectedProducts s") (auto simp: selection_inv_def product_with_id_def)
      then show ?thesis by simp
    qed
    from inv have d: "distinct (map fst (selectedProducts s))" by (simp add: selection_inv_def)
    from l Inr have l': "loadProducts fr s = (Inr c, s1)" by simp
    show ?thesis
      unfolding restore_array_loaded [OF st l' ok1]
      using selection_inv_populate [OF d old, of ids] distinct_populate [OF d, of ?ps ids]
      by (simp add: selection_inv_def renderSelectedProducts_def)
  qed
qed

section \<open>Claims\<close>

text \<open>
  C1. For every completion response with a 2xx status, \<^verbatim>\<open>sendMessagesToAI\<close> returns
  the first of the shapes content, text, answer, message, choices[0].message.content,
  choices[0].text (in this order) of the response's JSON whose value is not empty
  (truthy), as a string and trimmed; when no shape has such a value it fails with the
  error \<^verbatim>\<open>No assistant text returned from worker\<close>, and when the body is no JSON at
  all it fails with the error of \<^verbatim>\<open>resp.json()\<close>. For the response
  \<^verbatim>\<open>{choices:[{message:{content:"Use AM then PM."}}]}\<close> the result is exactly
  \<^verbatim>\<open>Use AM then PM.\<close>
\<close>

theorem complete_extracts_first_shape:
  assumes "ok resp"
  shows "(\<forall>data. body_json resp = Inr data \<longrightarrow>
            fst (sendMessagesToAI (Resolved resp) msgs s) =
              (case first_nonempty (response_shapes data) of
                 Some v \<Rightarrow> Inr (js_trim (js_String v))
               | None \<Rightarrow> Inl (Error ''No assistant text returned from worker''))) \<and>
         (\<forall>data t. body_json resp = Inr data \<and>
            first_nonempty (response_shapes data) = Some (JStr t) \<longrightarrow>
            fst (sendMessagesToAI (Resolved resp) msgs s) = Inr (js_trim t)) \<and>
         (body_json resp = Inr (JObj [(''choices'',
             JArr [JObj [(''message'', JObj [(''content'', JStr ''Use AM then PM.'')])]])]) \<longrightarrow>
            fst (sendMessagesToAI (Resolved resp) msgs s) = Inr ''Use AM then PM.'') \<and>
         (\<forall>e. body_json resp = Inl e \<longrightarrow>
            fst (sendMessagesToAI (Resolved resp) msgs s) = Inl e)"
proof (intro conjI allI impI; (elim conjE)?)
  note r = sendMessagesToAI_ok [OF assms, of _ msgs s]
  show "fst (sendMessagesToAI (Resolved resp) msgs s) =
           (case first_nonempty (response_shapes data) of
              Some v \<Rightarrow> Inr (js_trim (js_String v))
            | None \<Rightarrow> Inl (Error ''No assistant text returned from worker''))"
    if "body_json resp = Inr data" for data
    using that by (rule r)
  show "fst (sendMessagesToAI (Resolved resp) msgs s) = Inr (js_trim t)"
    if "body_json resp = Inr data" "first_nonempty (response_shapes data) = Some (JStr t)" for data t
    using that by (simp add: r)
  show "fst (sendMessagesToAI (Resolved resp) msgs s) = Inr ''Use AM then PM.''"
    if "body_json resp = Inr (JObj [(''choices'',
             JArr [JObj [(''message'', JObj [(''content'', JStr ''Use AM then PM.'')])]])])"
    unfolding r [OF that] by (simp add: response_shapes_def js_trim_def is_space_def)
  show "fst (sendMessagesToAI (Resolved resp) msgs s) = Inl e" if "body_json resp = Inl e" for e
    using assms that by (simp add: sendMessagesToAI_def Let_def)
qed

theorem complete_extracts_first_shape_witness:
  "ok completion_example \<and>
   fst (sendMessagesToAI (Resolved completion_example) (messages asking) asking) = Inr ''Use AM then PM.'' \<and>
   fst (sendMessagesToAI
     (Resolved \<lparr>status = 200, body_text = [],
        body_json = Inr (JObj [(''text'', JStr '' second ''), (''content'', JStr '' first '')])\<rparr>)
     [] asking) = Inr ''first'' \<and>
   fst (sendMessagesToAI
     (Resolved \<lparr>status = 204, body_text = [], body_json = Inr (JObj [(''content'', JStr [])])\<rparr>)
     [] asking) = Inl (Error ''No assistant text returned from worker'') \<and>
   fst (sendMessagesToAI
     (Resolved \<lparr>status = 200, body_text = ''<html>'',
        body_json = Inl (SyntaxError ''Unexpected token in JSON'')\<rparr>)
     [] asking) = Inl (SyntaxError ''Unexpected token in JSON'')"
proof -
  have o: "ok completion_example" by (simp add: ok_def completion_example_def)
  have j: "body_json completion_example = Inr (JObj [(''choices'',
             JArr [JObj [(''message'', JObj [(''content'', JStr ''Use AM then PM.'')])]])])"
    by (simp add: completion_example_def)
  from complete_extracts_first_shape [OF o, of "messages asking" asking] j
  have a: "fst (sendMessagesToAI (Resolved completion_example) (messages asking) asking) =
      Inr ''Use AM then PM.''"
    by blast
  let ?r = "\<lparr>status = 200, body_text = [],
        body_json = Inr (JObj [(''text'', JStr '' second ''), (''content'', JStr '' first '')])\<rparr>"
  have "ok ?r" by (simp add: ok_def)
  from complete_extracts_first_shape [OF this, of "[]" asking, THEN conjunct1]
  have b: "fst (sendMessagesToAI (Resolved ?r) [] asking) = Inr ''first''"
    by (simp add: response_shapes_def js_trim_def is_space_def)
  let ?q = "\<lparr>status = 204, body_text = [], body_json = Inr (JObj [(''content'', JStr [])])\<rparr>"
  have "ok ?q" by (simp add: ok_def)
  from complete_extracts_first_shape [OF this, of "[]" asking, THEN conjunct1]
  have c: "fst (sendMessagesToAI (Resolved ?q) [] asking) =
      Inl (Error ''No assistant text returned from worker'')"
    by (simp add: response_shapes_def)
  let ?h = "\<lparr>status = 200, body_text = ''<html>'',
        body_json = Inl (SyntaxError ''Unexpected token in JSON'')\<rparr>"
  have "ok ?h" by (simp add: ok_def)
  from complete_extracts_first_shape [OF this, of "[]" asking]
  have d: "fst (sendMessagesToAI (Resolved ?h) [] asking) = Inl (SyntaxError ''Unexpected token in JSON'')"
    by simp
  from o a b c d show ?thesis by simp
qed

text \<open>
  C2, as the code has it. On a well-formed Catalog and a SelectionSet that satisfies its
  invariant, two toggles of one id in a row leave the SelectionSet with the same entries
  (the same mapping; the very same list when the id was not selected, while a selected
  id moves to the end). The Persisted Selection Record encodes the same set of ids as
  before whenever it encoded the ids of the SelectionSet before, and is the same record
  when moreover the id was not selected; after a first toggle that changed something it
  holds the ids of the SelectionSet, whatever it held before. Starting from an empty
  SelectionSet with products 1 and 2 in the Catalog, toggle 1, toggle 1, toggle 2 leaves
  exactly product 2 selected.
\<close>

theorem toggle_twice_selection:
  assumes ok: "catalog_ok (allProductsCache s)" and inv: "selection_inv s"
  shows "(\<exists>s2. toggle_twice i s = Inr s2 \<and>
            set (selectedProducts s2) = set (selectedProducts s) \<and>
            distinct (map fst (selectedProducts s2)) \<and>
            map_of (selectedProducts s2) = map_of (selectedProducts s) \<and>
            (\<not> Map_has (JNum i) (selectedProducts s) \<longrightarrow>
               selectedProducts s2 = selectedProducts s) \<and>
            (persisted_ids (localStorage s) = Some (set (map fst (selectedProducts s))) \<longrightarrow>
               persisted_ids (localStorage s2) = persisted_ids (localStorage s)) \<and>
            (localStorage s = Some (JSON_stringify (JArr (map fst (selectedProducts s)))) \<and>
             \<not> Map_has (JNum i) (selectedProducts s) \<longrightarrow>
               localStorage s2 = localStorage s) \<and>
            (product_with_id (products_of (allProductsCache s)) (JNum i) = None \<longrightarrow> s2 = s) \<and>
            (product_with_id (products_of (allProductsCache s)) (JNum i) \<noteq> None \<longrightarrow>
               localStorage s2 =
                 (if storageWritable s
                  then Some (JSON_stringify (JArr (map fst (selectedProducts s2))))
                  else localStorage s))) \<and>
         (\<forall>a b. selectedProducts s = [] \<and>
            product_with_id (products_of (allProductsCache s)) (JNum 1) = Some a \<and>
            product_with_id (products_of (allProductsCache s)) (JNum 2) = Some b \<longrightarrow>
            (\<exists>s2 s3. toggle_twice 1 s = Inr s2 \<and> toggleSelection 2 s2 = Inr s3 \<and>
               selectedProducts s3 = [(JNum 2, b)]))"
proof (intro conjI allI impI)
  let ?P = "product_with_id (products_of (allProductsCache s)) (JNum i)"
  let ?sel = "selectedProducts s"
  from inv have d: "distinct (map fst ?sel)" by (simp add: selection_inv_def)
  show "\<exists>s2. toggle_twice i s = Inr s2 \<and>
            set (selectedProducts s2) = set ?sel \<and>
            distinct (map fst (selectedProducts s2)) \<and>
            map_of (selectedProducts s2) = map_of ?sel \<and>
            (\<not> Map_has (JNum i) ?sel \<longrightarrow> selectedProducts s2 = ?sel) \<and>
            (persisted_ids (localStorage s) = Some (set (map fst ?sel)) \<longrightarrow>
               persisted_ids (localStorage s2) = persisted_ids (localStorage s)) \<and>
            (localStorage s = Some (JSON_stringify (JArr (map fst ?sel))) \<and>
             \<not> Map_has (JNum i) ?sel \<longrightarrow> localStorage s2 = localStorage s) \<and>
            (?P = None \<longrightarrow> s2 = s) \<and>
            (?P \<noteq> None \<longrightarrow>
               localStorage s2 =
                 (if storageWritable s
                  then Some (JSON_stringify (JArr (map fst (selectedProducts s2))))
                  else localStorage s))"
  proof (cases ?P)
    case None
    with d show ?thesis by (simp add: toggle_twice_absent [OF ok None])
  next
    case (Some p)
    show ?thesis
    proof (cases "Map_has (JNum i) ?sel")
      case False
      with d Some show ?thesis
        by (simp add: toggle_twice_unselected [OF ok Some False] persisted_ids_def JSON_stringify_def)
    next
      case True
      then obtain v where v: "(JNum i, v) \<in> set ?sel" by (auto simp: Map_has_def)
      with inv Some have "v = p" by (auto simp: selection_inv_def)
      with v have e: "(JNum i, p) \<in> set ?sel" by simp
      have "fst ` set (Map_delete (JNum i) ?sel @ [(JNum i, p)]) = fst ` set ?sel"
        by (simp only: set_delete_snoc [OF d e])
      then have k: "set (map fst (Map_delete (JNum i) ?sel) @ [JNum i]) = set (map fst ?sel)"
        by simp
      have d2: "distinct (map fst (Map_delete (JNum i) ?sel) @ [JNum i])"
        using d Map_has_delete [of "JNum i" ?sel] by (simp add: distinct_Map_delete Map_has_def)
      let ?s2 = "s\<lparr>selectedProducts := Map_delete (JNum i) ?sel @ [(JNum i, p)],
             generateRoutineBtn_disabled := False,
             localStorage := (if storageWritable s
                then Some (JSON_stringify (JArr (map fst (Map_delete (JNum i) ?sel) @ [JNum i])))
                else localStorage s)\<rparr>"
      have t: "toggle_twice i s = Inr ?s2" by (rule toggle_twice_selected [OF ok Some True])
      have sel2: "selectedProducts ?s2 = Map_delete (JNum i) ?sel @ [(JNum i, p)]" by simp
      have c1: "set (selectedProducts ?s2) = set ?sel"
        unfolding sel2 by (rule set_delete_snoc [OF d e])
      have c2: "distinct (map fst (selectedProducts ?s2))"
        unfolding sel2 using d2 by simp
      have c3: "map_of (selectedProducts ?s2) = map_of ?sel"
        unfolding sel2 by (rule map_of_delete_snoc [OF d e])
      have c4: "persisted_ids (localStorage s) = Some (set (map fst ?sel)) \<longrightarrow>
               persisted_ids (localStorage ?s2) = persisted_ids (localStorage s)"
        using k by (simp add: persisted_ids_def JSON_stringify_def)
      have c5: "localStorage ?s2 =
                 (if storageWritable s
                  then Some (JSON_stringify (JArr (map fst (selectedProducts ?s2))))
                  else localStorage s)"
        by simp
      show ?thesis
      proof (intro exI [of _ ?s2] conjI)
        show "toggle_twice i s = Inr ?s2" by (rule t)
      qed (use c1 c2 c3 c4 c5 True Some in simp_all)
    qed
  qed
next
  fix a b
  assume h: "selectedProducts s = [] \<and>
            product_with_id (products_of (allProductsCache s)) (JNum 1) = Some a \<and>
            product_with_id (products_of (allProductsCache s)) (JNum 2) = Some b"
  then have n: "\<not> Map_has (JNum 1) (selectedProducts s)" by (simp add: Map_has_def)
  let ?s2 = "s\<lparr>generateRoutineBtn_disabled := (selectedProducts s = []),
             localStorage := (if storageWritable s
                then Some (JSON_stringify (JArr (map fst (selectedProducts s)))) else localStorage s)\<rparr>"
  have 1: "toggle_twice 1 s = Inr ?s2"
    using toggle_twice_unselected [OF ok _ n] h by blast
  have ok2: "catalog_ok (allProductsCache ?s2)"
    and p2: "product_with_id (products_of (allProductsCache ?s2)) (JNum 2) = Some b"
    using ok h by simp_all
  from toggle_present [OF ok2 p2] h 1
  show "\<exists>s2 s3. toggle_twice 1 s = Inr s2 \<and> toggleSelection 2 s2 = Inr s3 \<and>
               selectedProducts s3 = [(JNum 2, b)]"
    by (simp add: Map_has_def save_render_fields)
qed

theorem toggle_twice_selection_witness:
  "catalog_ok (allProductsCache both_selected) \<and> selection_inv both_selected \<and>
   (\<exists>s2. toggle_twice 1 both_selected = Inr s2 \<and>
      map_of (selectedProducts s2) = map_of (selectedProducts both_selected) \<and>
      persisted_ids (localStorage s2) = persisted_ids (localStorage both_selected)) \<and>
   (\<exists>s2 s3. toggle_twice 1 (loaded_state None) = Inr s2 \<and> toggleSelection 2 s2 = Inr s3 \<and>
      selectedProducts s3 = [(JNum 2, shampoo)]) \<and>
   toggle_twice 3 both_selected = Inr both_selected"
proof -
  have n: "product_with_id (products_of (allProductsCache both_selected)) (JNum 3) = None"
    by (simp add: demo_defs)
  from toggle_twice_selection [OF both_selected_facts(1,2), of 3] n
  have c: "toggle_twice 3 both_selected = Inr both_selected"
    by auto
  have p: "persisted_ids (localStorage both_selected) =
      Some (set (map fst (selectedProducts both_selected)))"
    by (simp add: both_selected_facts persisted_ids_def)
  from toggle_twice_selection [OF both_selected_facts(1,2), of 1] p
  have a: "\<exists>s2. toggle_twice 1 both_selected = Inr s2 \<and>
      map_of (selectedProducts s2) = map_of (selectedProducts both_selected) \<and>
      persisted_ids (localStorage s2) = persisted_ids (localStorage both_selected)"
    by blast
  from toggle_twice_selection [OF loaded_state_facts(1,2) [of None], of 1]
    loaded_state_facts(3-5) [of None]
  have b: "\<exists>s2 s3. toggle_twice 1 (loaded_state None) = Inr s2 \<and> toggleSelection 2 s2 = Inr s3 \<and>
      selectedProducts s3 = [(JNum 2, shampoo)]"
    by blast
  from a b c both_selected_facts(1,2) show ?thesis by blast
qed

text \<open>
  C2 as stated fails: a page loaded with the record \<^verbatim>\<open>[5]\<close>, an id the catalog lacks,
  has an empty SelectionSet after the restore and still the record \<^verbatim>\<open>[5]\<close>; two
  toggles of product 1 leave the SelectionSet empty and the record \<^verbatim>\<open>[]\<close>.
\<close>

theorem toggle_twice_record_counterexample:
  "catalog_ok (allProductsCache stale_page) \<and> selection_inv stale_page \<and>
   selectedProducts stale_page = [] \<and>
   localStorage stale_page = Some (Doc (JArr [JNum 5])) \<and>
   toggle_twice 1 stale_page =
     Inr (stale_page\<lparr>generateRoutineBtn_disabled := True, localStorage := Some (Doc (JArr []))\<rparr>) \<and>
   persisted_ids (Some (Doc (JArr []))) \<noteq> persisted_ids (localStorage stale_page)"
proof -
  have ok: "catalog_ok (allProductsCache stale_page)"
    and inv: "selection_inv stale_page"
    and sel: "selectedProducts stale_page = []"
    and st: "localStorage stale_page = Some (Doc (JArr [JNum 5]))"
    and w: "storageWritable stale_page"
    and p: "product_with_id (products_of (allProductsCache stale_page)) (JNum 1) = Some cleanser"
    using loaded_state_facts [of "Some (Doc (JArr [JNum 5]))"]
    by (simp_all add: stale_page_eq selection_inv_def)
  have n: "\<not> Map_has (JNum 1) (selectedProducts stale_page)" by (simp add: sel Map_has_def)
  have "toggle_twice 1 stale_page =
     Inr (stale_page\<lparr>generateRoutineBtn_disabled := True, localStorage := Some (Doc (JArr []))\<rparr>)"
    unfolding toggle_twice_unselected [OF ok p n] by (simp add: sel w JSON_stringify_def)
  with ok inv sel st show ?thesis by (simp add: persisted_ids_def)
qed

text \<open>
  C3. For a SelectionSet that holds Products of the (well-formed) Catalog under their
  ids, with storage that takes the write: \<^verbatim>\<open>saveSelectionsToStorage\<close> followed by
  \<^verbatim>\<open>restoreSelectionsFromStorage\<close> gives the same SelectionSet, entry for entry and in the
  same order, both in the same session and on a fresh page (empty SelectionSet, same
  record) that loads the same Catalog.
\<close>

theorem persist_restore_roundtrip:
  assumes ok: "catalog_ok (allProductsCache s)" and inv: "selection_inv s"
    and w: "storageWritable s"
  shows "selectedProducts (restoreSelectionsFromStorage fr (saveSelectionsToStorage s)) =
           selectedProducts s \<and>
         (\<forall>t c t1. localStorage t = localStorage (saveSelectionsToStorage s) \<and>
            selectedProducts t = [] \<and> loadProducts fr t = (Inr c, t1) \<and>
            allProductsCache t1 = allProductsCache s \<longrightarrow>
            selectedProducts (restoreSelectionsFromStorage fr t) = selectedProducts s)"
proof (intro conjI allI impI; (elim conjE)?)
  let ?s' = "saveSelectionsToStorage s"
  let ?ps = "products_of (allProductsCache s)"
  let ?sel = "selectedProducts s"
  from inv have d: "distinct (map fst ?sel)"
    and f: "\<forall>e \<in> set ?sel. product_with_id ?ps (fst e) = Some (snd e)"
    by (simp_all add: selection_inv_def)
  have st: "localStorage ?s' = Some (Doc (JArr (map fst ?sel)))"
    using w by (rule save_fields)
  show "selectedProducts (restoreSelectionsFromStorage fr ?s') = ?sel"
  proof (cases "truthy (allProductsCache s)")
    case True
    then have l: "loadProducts fr ?s' = (Inr (allProductsCache ?s'), ?s')"
      by (intro loadProducts_cached) (simp add: save_fields)
    have ok': "catalog_ok (allProductsCache ?s')" using ok by (simp add: save_fields)
    have "populate ?ps (map fst ?sel) ?sel = ?sel"
      using d f by (rule populate_same) simp
    then show ?thesis
      by (simp add: restore_array_loaded [OF st l ok'] renderSelectedProducts_def save_fields)
  next
    case False
    then have "?ps = []" by (rule products_of_unloaded)
    with f have e: "?sel = []" by (cases ?sel) (auto simp: product_with_id_def)
    obtain r s1 where l: "loadProducts fr ?s' = (r, s1)" by (cases "loadProducts fr ?s'")
    from loadProducts_fields(1) [OF l] e have "selectedProducts s1 = []" by (simp add: save_fields)
    with l e st show ?thesis
      by (cases r) (simp_all add: restore_array renderSelectedProducts_def)
  qed
  fix t c t1
  assume t: "localStorage t = localStorage ?s'" "selectedProducts t = []"
    "loadProducts fr t = (Inr c, t1)" "allProductsCache t1 = allProductsCache s"
  from t(1) st have st': "localStorage t = Some (Doc (JArr (map fst ?sel)))" by simp
  from ok t(4) have ok': "catalog_ok (allProductsCache t1)" by simp
  have "populate ?ps (map fst ?sel) [] = [] @ ?sel"
    using f d by (intro populate_fresh) simp_all
  then show "selectedProducts (restoreSelectionsFromStorage fr t) = ?sel"
    by (simp add: restore_array_loaded [OF st' t(3) ok'] renderSelectedProducts_def t(2,4))
qed

theorem persist_restore_roundtrip_witness:
  "catalog_ok (allProductsCache both_selected) \<and> selection_inv both_selected \<and>
   storageWritable both_selected \<and>
   selectedProducts (restoreSelectionsFromStorage (Rejected (TypeError ''Failed to fetch''))
      (saveSelectionsToStorage both_selected)) = [(JNum 1, cleanser), (JNum 2, shampoo)] \<and>
   selectedProducts (restoreSelectionsFromStorage (Resolved (catalog_response 200))
      (initial_state [] (localStorage (saveSelectionsToStorage both_selected)))) =
     [(JNum 1, cleanser), (JNum 2, shampoo)]"
proof -
  note r = persist_restore_roundtrip [OF both_selected_facts(1,2,7)]
  have c: "allProductsCache both_selected = Some (JArr [cleanser, shampoo])"
    by (simp add: both_selected_def loaded_state_def initial_state_def)
  from r [of "Rejected (TypeError ''Failed to fetch'')"]
  have a: "selectedProducts (restoreSelectionsFromStorage (Rejected (TypeError ''Failed to fetch''))
      (saveSelectionsToStorage both_selected)) = [(JNum 1, cleanser), (JNum 2, shampoo)]"
    by (simp add: both_selected_facts(3))
  let ?t = "initial_state [] (localStorage (saveSelectionsToStorage both_selected))"
  have "localStorage ?t = localStorage (saveSelectionsToStorage both_selected)"
    "selectedProducts ?t = []"
    by (simp_all add: initial_state_def)
  with r [of "Resolved (catalog_response 200)"] loadProducts_initial [of 200 "[]"] c
  have b: "selectedProducts (restoreSelectionsFromStorage (Resolved (catalog_response 200)) ?t) =
     [(JNum 1, cleanser), (JNum 2, shampoo)]"
    by (simp add: both_selected_facts(3))
  from a b both_selected_facts(1,2,7) show ?thesis by simp
qed

text \<open>
  C4. Whenever the completion endpoint answers with a status outside 200..299,
  \<^verbatim>\<open>sendMessagesToAI\<close> fails with the error whose message is \<^verbatim>\<open>Worker error:\<close>, the
  status code and the body text, and the message determines both (500 and
  \<^verbatim>\<open>server error\<close> give \<^verbatim>\<open>Worker error: 500 server error\<close>). The failure leaves the
  ConversationLog as it was when the request was sent: neither handler appends an
  assistant message, and after the chat handler the log is the old log followed by the
  user's message.
\<close>

theorem endpoint_error_keeps_log:
  assumes "\<not> ok resp"
  shows "fst (sendMessagesToAI (Resolved resp) msgs s) =
           Inl (Error (''Worker error: '' @ string_of_nat (status resp) @ '' '' @ body_text resp)) \<and>
         (\<forall>resp' msgs' s'. \<not> ok resp' \<and>
            fst (sendMessagesToAI (Resolved resp') msgs' s') = fst (sendMessagesToAI (Resolved resp) msgs s)
            \<longrightarrow> status resp' = status resp \<and> body_text resp' = body_text resp) \<and>
         (status resp = 500 \<and> body_text resp = ''server error'' \<longrightarrow>
            fst (sendMessagesToAI (Resolved resp) msgs s) = Inl (Error ''Worker error: 500 server error'')) \<and>
         messages (chat_reply (Resolved resp) s) = messages s \<and>
         messages (routine_reply (Resolved resp) s) = messages s \<and>
         (js_trim (userInput s) \<noteq> [] \<longrightarrow>
            messages (chat_submit (Resolved resp) s) =
              messages s @ [\<lparr>role = ''user'', content = js_trim (userInput s)\<rparr>])"
proof (intro conjI allI impI; (elim conjE)?)
  note e = sendMessagesToAI_not_ok [OF assms]
  show "fst (sendMessagesToAI (Resolved resp) msgs s) =
           Inl (Error (''Worker error: '' @ string_of_nat (status resp) @ '' '' @ body_text resp))"
    by (rule e)
  show "fst (sendMessagesToAI (Resolved resp) msgs s) = Inl (Error ''Worker error: 500 server error'')"
    if "status resp = 500" "body_text resp = ''server error''"
    using that by (simp add: e string_of_nat_500)
  show "messages (chat_reply (Resolved resp) s) = messages s"
    by (simp add: chat_reply_messages e)
  show "messages (routine_reply (Resolved resp) s) = messages s"
    by (simp add: routine_reply_messages e)
  show "messages (chat_submit (Resolved resp) s) =
              messages s @ [\<lparr>role = ''user'', content = js_trim (userInput s)\<rparr>]"
    if "js_trim (userInput s) \<noteq> []"
    using that by (simp add: chat_submit_messages e)
  fix resp' msgs' s'
  assume n: "\<not> ok resp'"
    and q: "fst (sendMessagesToAI (Resolved resp') msgs' s') = fst (sendMessagesToAI (Resolved resp) msgs s)"
  from q have "''Worker error: '' @ string_of_nat (status resp') @ '' '' @ body_text resp' =
      ''Worker error: '' @ string_of_nat (status resp) @ '' '' @ body_text resp"
    unfolding e sendMessagesToAI_not_ok [OF n] by simp
  then have r: "status resp' = status resp \<and> body_text resp' = body_text resp"
    by (rule worker_error_inj)
  from r show "status resp' = status resp" ..
  from r show "body_text resp' = body_text resp" ..
qed

theorem endpoint_error_keeps_log_witness:
  "\<not> ok server_error \<and>
   fst (sendMessagesToAI (Resolved server_error) (messages asking) asking) =
     Inl (Error ''Worker error: 500 server error'') \<and>
   messages (chat_submit (Resolved server_error) asking) =
     messages asking @ [\<lparr>role = ''user'', content = ''How do I use these?''\<rparr>]"
proof -
  have n: "\<not> ok server_error" by (simp add: ok_def server_error_def)
  have r: "status server_error = 500" "body_text server_error = ''server error''"
    by (simp_all add: server_error_def)
  have u: "js_trim (userInput asking) = ''How do I use these?''"
    by (simp add: asking_def trim_question)
  note t = endpoint_error_keeps_log [OF n, of "messages asking" asking]
  from t r have a: "fst (sendMessagesToAI (Resolved server_error) (messages asking) asking) =
     Inl (Error ''Worker error: 500 server error'')"
    by blast
  from u have "js_trim (userInput asking) \<noteq> []" by simp
  with t have "messages (chat_submit (Resolved server_error) asking) =
     messages asking @ [\<lparr>role = ''user'', content = js_trim (userInput asking)\<rparr>]"
    by blast
  with n a show ?thesis by (simp add: u)
qed

text \<open>
  C5, on the code. \<^verbatim>\<open>loadProducts\<close> does not read the status of the response: a
  response 404 whose body is a catalog document is taken and cached as the Catalog.
  (A rejected fetch and a body that is no JSON text do fail, and a truthy Catalog is
  returned from the cache without another fetch: the lemmas above.)
\<close>

theorem loadProducts_ignores_status:
  "\<not> ok (catalog_response 404) \<and>
   loadProducts (Resolved (catalog_response 404)) (initial_state [] None) =
     (Inr (Some (JArr [cleanser, shampoo])),
      (initial_state [] None)
        \<lparr>fetched := [\<lparr>url = ''products.json'', http_method = ''GET'', headers = [], body = None\<rparr>],
         allProductsCache := Some (JArr [cleanser, shampoo])\<rparr>)"
proof
  show "\<not> ok (catalog_response 404)" by (simp add: ok_def catalog_response_def)
  show "loadProducts (Resolved (catalog_response 404)) (initial_state [] None) =
     (Inr (Some (JArr [cleanser, shampoo])),
      (initial_state [] None)
        \<lparr>fetched := [\<lparr>url = ''products.json'', http_method = ''GET'', headers = [], body = None\<rparr>],
         allProductsCache := Some (JArr [cleanser, shampoo])\<rparr>)"
    by (rule loadProducts_initial)
qed

text \<open>
  C6, on the code. The chat turn asked with the small catalog, answered by an HTTP 500
  with the body \<^verbatim>\<open>server error\<close>: the chat window ends with the user's message, the
  placeholder \<^verbatim>\<open>Thinking...\<close> and the error notice, so the placeholder is not removed;
  both controls are enabled again. The routine action, with both products selected and
  the same answer, ends the same way with its placeholder \<^verbatim>\<open>Generating routine...\<close>
  still there. (On success the placeholder is removed: \<open>success_removes_placeholder\<close>.)
\<close>

theorem failure_leaves_placeholder:
  "chatWindow (chat_submit (Resolved server_error) asking) =
     [chat_element ''user'' ''How do I use these?'',
      chat_element ''assistant'' ''Thinking...'',
      chat_element ''assistant'' ''Error: Worker error: 500 server error''] \<and>
   sendBtn_disabled (chat_submit (Resolved server_error) asking) = False \<and>
   generateRoutineBtn_disabled (chat_submit (Resolved server_error) asking) = False \<and>
   generateRoutine (Resolved server_error) both_selected =
     Inr (routine_reply (Resolved server_error) (routine_begin [cleanser, shampoo] both_selected)) \<and>
   chatWindow (routine_reply (Resolved server_error) (routine_begin [cleanser, shampoo] both_selected)) =
     [chat_element ''user'' ''(Selected products) See the list you provided.'',
      chat_element ''assistant'' ''Generating routine...'',
      chat_element ''assistant'' ''Error generating routine: Worker error: 500 server error'']"
proof -
  have t: "js_trim (userInput asking) = ''How do I use these?''"
    by (simp add: asking_def trim_question)
  have w: "chatWindow asking = []" "chatWindow both_selected = []"
    by (simp_all add: asking_def both_selected_def loaded_state_def initial_state_def)
  have s: "chat_submit (Resolved server_error) asking =
      chat_reply (Resolved server_error) (chat_begin ''How do I use these?'' asking)"
    by (simp add: chat_submit_def t Let_def)
  note c = chat_reply_failure [OF server_error_result, of "chat_begin ''How do I use these?'' asking"]
  note r = routine_reply_failure [OF server_error_result, of "routine_begin [cleanser, shampoo] both_selected"]
  have g: "generateRoutine (Resolved server_error) both_selected =
     Inr (routine_reply (Resolved server_error) (routine_begin [cleanser, shampoo] both_selected))"
    by (simp add: generateRoutine_def selected_entries_both)
  from c r g show ?thesis
    by (simp add: s chat_begin_window routine_begin_window w trim_error_notices)
qed

text \<open>
  C7. \<^verbatim>\<open>restoreSelectionsFromStorage\<close> leaves the whole state as it is when the Persisted
  Selection Record is absent, is no JSON text (the empty string too), or is a JSON value
  that is not a list. When it is a list and the Catalog loads (well formed), the
  SelectionSet is populated with the persisted ids the Catalog has a Product for, each
  mapped to that Product: its keys are the keys it had together with the intersection of
  the persisted ids and the ids of the Catalog, so exactly that intersection from the
  empty SelectionSet of a page load; an id without a Product is left out. When the
  Catalog does not load the SelectionSet stays as it was. No case raises: the function
  returns a state in each.
\<close>

theorem restore_cases:
  "(localStorage s = None \<longrightarrow> restoreSelectionsFromStorage fr s = s) \<and>
   (\<forall>str. localStorage s = Some (Raw str) \<longrightarrow> restoreSelectionsFromStorage fr s = s) \<and>
   (\<forall>v. localStorage s = Some (Doc v) \<and> (\<forall>ids. v \<noteq> JArr ids) \<longrightarrow>
      restoreSelectionsFromStorage fr s = s) \<and>
   (\<forall>ids c s1. localStorage s = Some (Doc (JArr ids)) \<and> loadProducts fr s = (Inr c, s1) \<and>
      catalog_ok (allProductsCache s1) \<longrightarrow>
      selectedProducts (restoreSelectionsFromStorage fr s) =
        populate (products_of (allProductsCache s1)) ids (selectedProducts s) \<and>
      fst ` set (selectedProducts (restoreSelectionsFromStorage fr s)) =
        fst ` set (selectedProducts s) \<union>
        (set ids \<inter> {k. product_with_id (products_of (allProductsCache s1)) k \<noteq> None}) \<and>
      (selectedProducts s = [] \<longrightarrow>
         fst ` set (selectedProducts (restoreSelectionsFromStorage fr s)) =
           set ids \<inter> {k. product_with_id (products_of (allProductsCache s1)) k \<noteq> None}) \<and>
      (\<forall>k. map_of (selectedProducts (restoreSelectionsFromStorage fr s)) k =
         (if k \<in> set ids \<and> product_with_id (products_of (allProductsCache s1)) k \<noteq> None
          then product_with_id (products_of (allProductsCache s1)) k
          else map_of (selectedProducts s) k))) \<and>
   (\<forall>ids e s1. localStorage s = Some (Doc (JArr ids)) \<and> loadProducts fr s = (Inl e, s1) \<longrightarrow>
      selectedProducts (restoreSelectionsFromStorage fr s) = selectedProducts s)"
proof (intro conjI allI impI; (elim conjE)?)
  fix ids c s1
  assume a: "localStorage s = Some (Doc (JArr ids))" "loadProducts fr s = (Inr c, s1)"
    "catalog_ok (allProductsCache s1)"
  let ?ps = "products_of (allProductsCache s1)"
  have sel: "selectedProducts (restoreSelectionsFromStorage fr s) = populate ?ps ids (selectedProducts s)"
    by (simp add: restore_array_loaded [OF a] renderSelectedProducts_def)
  show "selectedProducts (restoreSelectionsFromStorage fr s) = populate ?ps ids (selectedProducts s)"
    by (rule sel)
  show k: "fst ` set (selectedProducts (restoreSelectionsFromStorage fr s)) =
        fst ` set (selectedProducts s) \<union> (set ids \<inter> {k. product_with_id ?ps k \<noteq> None})"
    unfolding sel keys_populate by auto
  show "fst ` set (selectedProducts (restoreSelectionsFromStorage fr s)) =
           set ids \<inter> {k. product_with_id ?ps k \<noteq> None}" if "selectedProducts s = []"
    unfolding k using that by simp
  show "map_of (selectedProducts (restoreSelectionsFromStorage fr s)) k =
         (if k \<in> set ids \<and> product_with_id ?ps k \<noteq> None
          then product_with_id ?ps k else map_of (selectedProducts s) k)" for k
    unfolding sel by (rule map_of_populate)
qed (simp_all add: restore_absent restore_unparsable restore_not_array restore_array_failed)

theorem restore_cases_witness:
  "restoreSelectionsFromStorage (Resolved (catalog_response 200)) (initial_state [] None) =
     initial_state [] None \<and>
   restoreSelectionsFromStorage (Resolved (catalog_response 200)) (initial_state [] (Some (Raw ''oops''))) =
     initial_state [] (Some (Raw ''oops'')) \<and>
   restoreSelectionsFromStorage (Resolved (catalog_response 200)) (initial_state [] (Some (Doc (JNum 7)))) =
     initial_state [] (Some (Doc (JNum 7))) \<and>
   selectedProducts (restoreSelectionsFromStorage (Resolved (catalog_response 200))
     (initial_state [] (Some (Doc (JArr [JNum 5, JNum 2, JStr ''a'']))))) = [(JNum 2, shampoo)] \<and>
   selectedProducts (restoreSelectionsFromStorage (Rejected (TypeError ''Failed to fetch''))
     (initial_state [] (Some (Doc (JArr [JNum 5, JNum 2, JStr ''a'']))))) = []"
proof -
  let ?fr = "Resolved (catalog_response 200)"
  let ?ids = "[JNum 5, JNum 2, JStr ''a'']"
  have st: "localStorage (initial_state [] x) = x" "selectedProducts (initial_state [] x) = []" for x
    by (simp_all add: initial_state_def)
  from restore_cases [of "initial_state [] None" ?fr]
  have a: "restoreSelectionsFromStorage ?fr (initial_state [] None) = initial_state [] None"
    by (simp add: st)
  from restore_cases [of "initial_state [] (Some (Raw ''oops''))" ?fr]
  have b: "restoreSelectionsFromStorage ?fr (initial_state [] (Some (Raw ''oops''))) =
     initial_state [] (Some (Raw ''oops''))"
    by (simp add: st)
  from restore_cases [of "initial_state [] (Some (Doc (JNum 7)))" ?fr]
  have c: "restoreSelectionsFromStorage ?fr (initial_state [] (Some (Doc (JNum 7)))) =
     initial_state [] (Some (Doc (JNum 7)))"
    by (simp add: st)
  have p: "populate (products_of (Some (JArr [cleanser, shampoo]))) ?ids [] = [(JNum 2, shampoo)]"
    by (simp add: populate_def demo_defs)
  have ok: "catalog_ok (Some (JArr [cleanser, shampoo]))" by (simp add: demo_defs)
  from restore_cases [of "initial_state [] (Some (Doc (JArr ?ids)))" ?fr]
    loadProducts_initial [of 200 "[]" "Some (Doc (JArr ?ids))"] ok p
  have d: "selectedProducts (restoreSelectionsFromStorage ?fr
     (initial_state [] (Some (Doc (JArr ?ids))))) = [(JNum 2, shampoo)]"
    by (simp add: st)
  have l: "loadProducts (Rejected (TypeError ''Failed to fetch'')) (initial_state [] (Some (Doc (JArr ?ids)))) =
     (Inl (TypeError ''Failed to fetch''),
      (initial_state [] (Some (Doc (JArr ?ids))))
        \<lparr>fetched := [\<lparr>url = ''products.json'', http_method = ''GET'', headers = [], body = None\<rparr>]\<rparr>)"
    by (simp add: loadProducts_def initial_state_def Let_def)
  from restore_cases [of "initial_state [] (Some (Doc (JArr ?ids)))" "Rejected (TypeError ''Failed to fetch'')"] l
  have e: "selectedProducts (restoreSelectionsFromStorage (Rejected (TypeError ''Failed to fetch''))
     (initial_state [] (Some (Doc (JArr ?ids))))) = []"
    by (simp add: st)
  from a b c d e show ?thesis by simp
qed

text \<open>
  C8. With an empty SelectionSet the routine handler calls \<^verbatim>\<open>fetch\<close> not once, leaves
  the ConversationLog as it is, and appends exactly one element to the visible chat, the
  assistant-role guidance message; nothing else of the state changes.
\<close>

theorem routine_refuses_empty:
  assumes "selectedProducts s = []"
  shows "generateRoutine fr s =
           Inr (s\<lparr>chatWindow := chatWindow s @
                  [chat_element ''assistant'' ''Select at least one product to generate a routine.'']\<rparr>) \<and>
         is_assistant (chat_element ''assistant'' ''Select at least one product to generate a routine.'') \<and>
         (\<forall>s'. generateRoutine fr s = Inr s' \<longrightarrow>
            fetched s' = fetched s \<and> messages s' = messages s \<and>
            length (chatWindow s') = Suc (length (chatWindow s)))"
proof -
  have "generateRoutine fr s =
           Inr (s\<lparr>chatWindow := chatWindow s @
                  [chat_element ''assistant'' ''Select at least one product to generate a routine.'']\<rparr>)"
    using assms
    by (simp add: generateRoutine_def appendMessageToChat_def chat_element_def trim_guidance Let_def)
  then show ?thesis by (simp add: is_assistant_element)
qed

theorem routine_refuses_empty_witness:
  "selectedProducts (loaded_state None) = [] \<and>
   generateRoutine (Resolved completion_example) (loaded_state None) =
     Inr ((loaded_state None)\<lparr>chatWindow :=
       [chat_element ''assistant'' ''Select at least one product to generate a routine.'']\<rparr>) \<and>
   fetched ((loaded_state None)\<lparr>chatWindow :=
       [chat_element ''assistant'' ''Select at least one product to generate a routine.'']\<rparr>) = []"
proof -
  have e: "selectedProducts (loaded_state None) = []" "chatWindow (loaded_state None) = []"
    "fetched (loaded_state None) = []"
    by (simp_all add: loaded_state_def initial_state_def)
  from routine_refuses_empty [OF e(1), of "Resolved completion_example", THEN conjunct1]
  have 1: "generateRoutine (Resolved completion_example) (loaded_state None) =
     Inr ((loaded_state None)\<lparr>chatWindow :=
       [chat_element ''assistant'' ''Select at least one product to generate a routine.'']\<rparr>)"
    by (simp only: e(2) append_Nil)
  have 2: "fetched ((loaded_state None)\<lparr>chatWindow :=
       [chat_element ''assistant'' ''Select at least one product to generate a routine.'']\<rparr>) = []"
    by (simp add: e(3))
  from e(1) 1 2 show ?thesis by (intro conjI)
qed

text \<open>
  C9. For every product id and every SelectionSet, on a well-formed Catalog:
  \<^verbatim>\<open>toggleSelection\<close> changes nothing when the Catalog has no Product of that id; when it
  has one and the id is selected, the id is removed from the SelectionSet; when it has
  one and the id is not selected, the Product is inserted (at the end); and in both the
  latter cases the keys of the new SelectionSet are written to storage (the entry keeps
  its old value only where the platform refuses the write).
\<close>

theorem toggleSelection_cases:
  assumes "catalog_ok (allProductsCache s)"
  shows "(product_with_id (products_of (allProductsCache s)) (JNum i) = None \<longrightarrow>
            toggleSelection i s = Inr s) \<and>
         (\<forall>p. product_with_id (products_of (allProductsCache s)) (JNum i) = Some p \<longrightarrow>
            (\<exists>s'. toggleSelection i s = Inr s' \<and>
               (if Map_has (JNum i) (selectedProducts s)
                then selectedProducts s' = Map_delete (JNum i) (selectedProducts s) \<and>
                     \<not> Map_has (JNum i) (selectedProducts s') \<and>
                     map_of (selectedProducts s') = (map_of (selectedProducts s))(JNum i := None)
                else selectedProducts s' = selectedProducts s @ [(JNum i, p)] \<and>
                     map_of (selectedProducts s') = (map_of (selectedProducts s))(JNum i \<mapsto> p)) \<and>
               localStorage s' =
                 (if storageWritable s
                  then Some (JSON_stringify (JArr (map fst (selectedProducts s'))))
                  else localStorage s)))"
proof (intro conjI allI impI)
  assume "product_with_id (products_of (allProductsCache s)) (JNum i) = None"
  with assms show "toggleSelection i s = Inr s" by (rule toggle_absent)
next
  fix p
  assume p: "product_with_id (products_of (allProductsCache s)) (JNum i) = Some p"
  show "\<exists>s'. toggleSelection i s = Inr s' \<and>
               (if Map_has (JNum i) (selectedProducts s)
                then selectedProducts s' = Map_delete (JNum i) (selectedProducts s) \<and>
                     \<not> Map_has (JNum i) (selectedProducts s') \<and>
                     map_of (selectedProducts s') = (map_of (selectedProducts s))(JNum i := None)
                else selectedProducts s' = selectedProducts s @ [(JNum i, p)] \<and>
                     map_of (selectedProducts s') = (map_of (selectedProducts s))(JNum i \<mapsto> p)) \<and>
               localStorage s' =
                 (if storageWritable s
                  then Some (JSON_stringify (JArr (map fst (selectedProducts s'))))
                  else localStorage s)"
  proof (cases "Map_has (JNum i) (selectedProducts s)")
    case True
    then show ?thesis
      unfolding toggle_present [OF assms p]
      by (simp add: save_render_fields Map_has_delete map_of_Map_delete)
  next
    case False
    then show ?thesis
      unfolding toggle_present [OF assms p]
      by (simp add: save_render_fields map_of_snoc_fresh Map_set_fresh del: map_of_append)
  qed
qed

theorem toggleSelection_cases_witness:
  "catalog_ok (allProductsCache (loaded_state None)) \<and>
   toggleSelection 3 (loaded_state None) = Inr (loaded_state None) \<and>
   (\<exists>s'. toggleSelection 1 (loaded_state None) = Inr s' \<and>
      selectedProducts s' = [(JNum 1, cleanser)] \<and>
      localStorage s' = Some (JSON_stringify (JArr [JNum 1]))) \<and>
   (\<exists>s'. toggleSelection 1 both_selected = Inr s' \<and>
      selectedProducts s' = [(JNum 2, shampoo)] \<and>
      localStorage s' = Some (JSON_stringify (JArr [JNum 2])))"
proof -
  have ok: "catalog_ok (allProductsCache (loaded_state None))"
    and ok2: "catalog_ok (allProductsCache both_selected)"
    by (simp_all add: demo_defs)
  have p3: "product_with_id (products_of (allProductsCache (loaded_state None))) (JNum 3) = None"
    and p1: "product_with_id (products_of (allProductsCache (loaded_state None))) (JNum 1) = Some cleanser"
    and q1: "product_with_id (products_of (allProductsCache both_selected)) (JNum 1) = Some cleanser"
    by (simp_all add: demo_defs)
  have sel: "selectedProducts (loaded_state None) = []" "storageWritable (loaded_state None)"
    and sel2: "selectedProducts both_selected = [(JNum 1, cleanser), (JNum 2, shampoo)]"
      "storageWritable both_selected"
    by (simp_all add: loaded_state_def initial_state_def both_selected_def)
  from toggleSelection_cases [OF ok, of 3] p3
  have a: "toggleSelection 3 (loaded_state None) = Inr (loaded_state None)" by simp
  from toggleSelection_cases [OF ok, of 1] p1 sel
  have b: "\<exists>s'. toggleSelection 1 (loaded_state None) = Inr s' \<and>
      selectedProducts s' = [(JNum 1, cleanser)] \<and>
      localStorage s' = Some (JSON_stringify (JArr [JNum 1]))"
    by (auto simp: Map_has_def)
  from toggleSelection_cases [OF ok2, of 1] q1 sel2
  have c: "\<exists>s'. toggleSelection 1 both_selected = Inr s' \<and>
      selectedProducts s' = [(JNum 2, shampoo)] \<and>
      localStorage s' = Some (JSON_stringify (JArr [JNum 2]))"
    by (auto simp: Map_has_def Map_delete_def)
  from ok a b c show ?thesis by blast
qed

text \<open>
  C10. The submit handler of the chat form does nothing at all when the text of the
  input is empty after trimming, so the empty text and the text of three spaces leave
  the length of the ConversationLog unchanged. Otherwise it appends one user Message
  whose content is the trimmed text, and nothing follows it in the log but the
  assistant's reply, if one comes.
\<close>

theorem chat_submit_appends_user:
  "(js_trim (userInput s) = [] \<longrightarrow> chat_submit fr s = s) \<and>
   (js_trim (userInput s) \<noteq> [] \<longrightarrow>
      messages (chat_begin (js_trim (userInput s)) s) =
        messages s @ [\<lparr>role = ''user'', content = js_trim (userInput s)\<rparr>] \<and>
      (\<exists>rest. messages (chat_submit fr s) =
           messages s @ \<lparr>role = ''user'', content = js_trim (userInput s)\<rparr> # rest \<and>
         (\<forall>m \<in> set rest. role m = ''assistant'') \<and> length rest \<le> 1)) \<and>
   (userInput s = [] \<longrightarrow> length (messages (chat_submit fr s)) = length (messages s)) \<and>
   (userInput s = ''   '' \<longrightarrow> length (messages (chat_submit fr s)) = length (messages s))"
proof (intro conjI impI)
  show "chat_submit fr s = s" if "js_trim (userInput s) = []"
    using that by (simp add: chat_submit_def)
  show "messages (chat_begin (js_trim (userInput s)) s) =
        messages s @ [\<lparr>role = ''user'', content = js_trim (userInput s)\<rparr>]"
    by (rule chat_begin_messages)
  show "\<exists>rest. messages (chat_submit fr s) =
           messages s @ \<lparr>role = ''user'', content = js_trim (userInput s)\<rparr> # rest \<and>
         (\<forall>m \<in> set rest. role m = ''assistant'') \<and> length rest \<le> 1"
    if "js_trim (userInput s) \<noteq> []"
    unfolding chat_submit_messages [OF that] by (auto split: sum.splits)
  show "length (messages (chat_submit fr s)) = length (messages s)" if "userInput s = []"
    using that by (simp add: chat_submit_def js_trim_def)
  show "length (messages (chat_submit fr s)) = length (messages s)" if "userInput s = ''   ''"
    using that by (simp add: chat_submit_def js_trim_def is_space_def)
qed

theorem chat_submit_appends_user_witness:
  "chat_submit (Resolved completion_example) (loaded_state None) = loaded_state None \<and>
   chat_submit (Resolved completion_example) ((loaded_state None)\<lparr>userInput := ''   ''\<rparr>) =
     (loaded_state None)\<lparr>userInput := ''   ''\<rparr> \<and>
   messages (chat_begin ''How do I use these?'' asking) =
     messages asking @ [\<lparr>role = ''user'', content = ''How do I use these?''\<rparr>]"
proof -
  have a: "js_trim (userInput (loaded_state None)) = []"
    by (simp add: loaded_state_def initial_state_def js_trim_def)
  have b: "js_trim (userInput ((loaded_state None)\<lparr>userInput := ''   ''\<rparr>)) = []"
    by (simp add: js_trim_def is_space_def)
  have c: "js_trim (userInput asking) = ''How do I use these?''"
    by (simp add: asking_def trim_question)
  from chat_submit_appends_user [of "loaded_state None" "Resolved completion_example"] a
  have 1: "chat_submit (Resolved completion_example) (loaded_state None) = loaded_state None"
    by blast
  from chat_submit_appends_user [of "(loaded_state None)\<lparr>userInput := ''   ''\<rparr>" "Resolved completion_example"] b
  have 2: "chat_submit (Resolved completion_example) ((loaded_state None)\<lparr>userInput := ''   ''\<rparr>) =
     (loaded_state None)\<lparr>userInput := ''   ''\<rparr>"
    by blast
  from c have "js_trim (userInput asking) \<noteq> []" by simp
  with chat_submit_appends_user [of asking "Resolved completion_example"]
  have "messages (chat_begin (js_trim (userInput asking)) asking) =
        messages asking @ [\<lparr>role = ''user'', content = js_trim (userInput asking)\<rparr>]"
    by blast
  with 1 2 show ?thesis by (simp add: c)
qed

end
